theory Spec2Isabelle
  imports Main "HOL-Library.Sublist"
begin

section \<open>JavaScript values and the object store\<close>

text \<open>
  The repository class works on untyped JavaScript objects. A value is a primitive or a
  reference to an object of the store; strict equality (\<open>===\<close>) on these values is HOL
  equality (numbers are modelled as integers, so \<open>NaN\<close> does not occur). An object has its
  own properties, the properties it sees only through its prototype chain (flattened into
  one map), and, when it is an instance of \<open>Array\<close>, its elements.
\<close>

type_synonym addr = nat

type_synonym target = string

datatype val = JSUndefined | JSNull | JSBool bool | JSNum int | JSStr string | JSRef addr

record jsobj =
  own :: "string \<rightharpoonup> val"
  inherited :: "string \<rightharpoonup> val"
  elems :: "val list option"

type_synonym heap = "addr \<Rightarrow> jsobj"

datatype error = TypeError | Error string | StorageError string

definition emptyObject :: jsobj where
  "emptyObject = \<lparr>own = Map.empty, inherited = Map.empty, elems = None\<rparr>"

text \<open>\<open>!!v\<close>: the values JavaScript treats as true in a condition.\<close>

fun truthy :: "val \<Rightarrow> bool" where
  "truthy JSUndefined = False"
| "truthy JSNull = False"
| "truthy (JSBool b) = b"
| "truthy (JSNum n) = (n \<noteq> 0)"
| "truthy (JSStr s) = (s \<noteq> [])"
| "truthy (JSRef a) = True"

text \<open>\<open>obj[p]\<close> on an object: the own property, else the inherited one, else \<open>undefined\<close>.\<close>

definition objGet :: "jsobj \<Rightarrow> string \<Rightarrow> val" where
  "objGet obj p =
     (case own obj p of
        Some v \<Rightarrow> v
      | None \<Rightarrow> (case inherited obj p of Some v \<Rightarrow> v | None \<Rightarrow> JSUndefined))"

text \<open>
  \<open>v[p]\<close> on any value: reading a property of \<open>undefined\<close> or \<open>null\<close> throws a
  \<open>TypeError\<close>; a primitive has none of the properties the metadata names.
\<close>

fun getProp :: "heap \<Rightarrow> val \<Rightarrow> string \<Rightarrow> error + val" where
  "getProp h JSUndefined p = Inl TypeError"
| "getProp h JSNull p = Inl TypeError"
| "getProp h (JSRef a) p = Inr (objGet (h a) p)"
| "getProp h (JSBool b) p = Inr JSUndefined"
| "getProp h (JSNum n) p = Inr JSUndefined"
| "getProp h (JSStr s) p = Inr JSUndefined"

text \<open>\<open>v.hasOwnProperty(p)\<close> for a truthy \<open>v\<close>.\<close>

fun hasOwnProperty :: "heap \<Rightarrow> val \<Rightarrow> string \<Rightarrow> bool" where
  "hasOwnProperty h (JSRef a) p = (own (h a) p \<noteq> None)"
| "hasOwnProperty h v p = False"

text \<open>\<open>v instanceof Array\<close>, with the elements when it holds.\<close>

fun arrayElems :: "heap \<Rightarrow> val \<Rightarrow> val list option" where
  "arrayElems h (JSRef a) = elems (h a)"
| "arrayElems h v = None"

text \<open>\<open>obj[p] = v\<close> on an object of the store: an own property is created or overwritten.\<close>

definition setOwn :: "heap \<Rightarrow> addr \<Rightarrow> string \<Rightarrow> val \<Rightarrow> heap" where
  "setOwn h a p v = h(a := (h a)\<lparr>own := (own (h a))(p \<mapsto> v)\<rparr>)"

section \<open>Metadata\<close>

text \<open>
  The metadata classes are declared outside the repository class; the records hold the
  fields the repository reads. Metadata objects refer to each other (a relation to the
  metadata of the entity on its other side), so a relation holds the target of that
  metadata and the collection resolves it.
\<close>

record ColumnMetadata =
  col_name :: string
  col_propertyName :: string

datatype RelationType = OneToOne | OneToMany | ManyToOne | ManyToMany

record JunctionEntityMetadata =
  junction_tableName :: string
  junction_columns :: "ColumnMetadata list"

record InverseRelation =
  inv_name :: string
  inv_joinColumn :: "string option"

record RelationMetadata =
  rel_name :: string
  rel_propertyName :: string
  relationType :: RelationType
  isOwning :: bool
  isLazy :: bool
  entityMetadata :: target
  inverseEntityMetadata :: target
  joinColumn :: "string option"
  inverseRelation :: "InverseRelation option"
  junctionEntityMetadata :: "JunctionEntityMetadata option"

record EntityMetadata =
  md_target :: target
  md_name :: string
  md_tableName :: string
  primaryColumn :: ColumnMetadata
  relations :: "RelationMetadata list"

type_synonym EntityMetadataCollection = "target \<Rightarrow> EntityMetadata"

record EntityWithId =
  ewi_id :: val
  ewi_entityTarget :: target
  ewi_entity :: val

definition isManyToMany :: "RelationMetadata \<Rightarrow> bool" where
  "isManyToMany relation = (relationType relation = ManyToMany)"

section \<open>Graph collection: \<open>extractObjectsById\<close>\<close>

text \<open>
  The property a relation's value is read from: the slot \<open>__name__\<close> of a lazy relation,
  the property itself otherwise.
\<close>

definition relationSlot :: "RelationMetadata \<Rightarrow> string" where
  "relationSlot relation =
     (if isLazy relation then ''__'' @ rel_propertyName relation @ ''__''
      else rel_propertyName relation)"

text \<open>
  \<open>extractObjectsById\<close> calls itself, inside \<open>relations.map\<close>, for the value of every
  relation (for every element when the value is an array) before it creates the promise
  whose \<open>then\<close> callback looks the entity up in the shared array \<open>entityWithIds\<close> and
  pushes it when no entry holds the same object. The first argument bounds the depth of
  these nested calls: \<open>None\<close> says that the call does not return within that depth. A
  thrown \<open>TypeError\<close> and a rejected promise are both \<open>Some (Inl e)\<close>. The callbacks of
  the calls made for one entity run before the callback of that entity; the model runs
  them in the order of the calls. The job queue may run the callbacks of separate
  subtrees in another order: that changes the order of the entries, and which of two
  walks of one object records it, never which objects are recorded.
\<close>

fun extractObjectsById ::
    "nat \<Rightarrow> heap \<Rightarrow> EntityMetadataCollection \<Rightarrow> val \<Rightarrow> EntityMetadata \<Rightarrow> EntityWithId list
      \<Rightarrow> (error + EntityWithId list) option"
  and extractRelations ::
    "nat \<Rightarrow> heap \<Rightarrow> EntityMetadataCollection \<Rightarrow> val \<Rightarrow> RelationMetadata list \<Rightarrow> EntityWithId list
      \<Rightarrow> (error + EntityWithId list) option"
  and extractSubEntities ::
    "nat \<Rightarrow> heap \<Rightarrow> EntityMetadataCollection \<Rightarrow> val list \<Rightarrow> EntityMetadata \<Rightarrow> EntityWithId list
      \<Rightarrow> (error + EntityWithId list) option"
where
  "extractObjectsById 0 h ms entity metadata entityWithIds = None"
| "extractObjectsById (Suc n) h ms entity metadata entityWithIds =
     (case extractRelations n h ms entity (relations metadata) entityWithIds of
        None \<Rightarrow> None
      | Some (Inl e) \<Rightarrow> Some (Inl e)
      | Some (Inr found) \<Rightarrow>
          (if find (\<lambda>entityWithId. ewi_entity entityWithId = entity) found \<noteq> None
           then Some (Inr found)
           else (case getProp h entity (col_name (primaryColumn metadata)) of
                   Inl e \<Rightarrow> Some (Inl e)
                 | Inr v \<Rightarrow>
                     Some (Inr (found @
                       [\<lparr>ewi_id = v, ewi_entityTarget = md_target metadata,
                         ewi_entity = entity\<rparr>])))))"
| "extractRelations n h ms entity [] entityWithIds = Some (Inr entityWithIds)"
| "extractRelations n h ms entity (relation # rest) entityWithIds =
     (case getProp h entity (relationSlot relation) of
        Inl e \<Rightarrow> Some (Inl e)
      | Inr v \<Rightarrow>
          (if \<not> truthy v then extractRelations n h ms entity rest entityWithIds
           else (case (case arrayElems h v of
                         Some subEntities \<Rightarrow>
                           extractSubEntities n h ms subEntities
                             (ms (inverseEntityMetadata relation)) entityWithIds
                       | None \<Rightarrow>
                           extractObjectsById n h ms v
                             (ms (inverseEntityMetadata relation)) entityWithIds) of
                   None \<Rightarrow> None
                 | Some (Inl e) \<Rightarrow> Some (Inl e)
                 | Some (Inr found) \<Rightarrow> extractRelations n h ms entity rest found)))"
| "extractSubEntities n h ms [] relMetadata entityWithIds = Some (Inr entityWithIds)"
| "extractSubEntities n h ms (subEntity # rest) relMetadata entityWithIds =
     (case extractObjectsById n h ms subEntity relMetadata entityWithIds of
        None \<Rightarrow> None
      | Some (Inl e) \<Rightarrow> Some (Inl e)
      | Some (Inr found) \<Rightarrow> extractSubEntities n h ms rest relMetadata found)"

subsection \<open>A self-referencing entity\<close>

text \<open>
  A category whose \<open>parent\<close> relation holds the category itself:
  \<^verbatim>\<open>const c = {id: 1}; c.parent = c\<close>.
\<close>

definition parentRelation :: RelationMetadata where
  "parentRelation =
     \<lparr>rel_name = ''parent'', rel_propertyName = ''parent'', relationType = ManyToOne,
      isOwning = True, isLazy = False, entityMetadata = ''Category'',
      inverseEntityMetadata = ''Category'', joinColumn = Some ''id'',
      inverseRelation = None, junctionEntityMetadata = None\<rparr>"

definition categoryMetadata :: EntityMetadata where
  "categoryMetadata =
     \<lparr>md_target = ''Category'', md_name = ''Category'', md_tableName = ''category'',
      primaryColumn = \<lparr>col_name = ''id'', col_propertyName = ''id''\<rparr>,
      relations = [parentRelation]\<rparr>"

definition selfReferencingHeap :: heap where
  "selfReferencingHeap =
     (\<lambda>a. emptyObject)
       (0 := \<lparr>own = [''id'' \<mapsto> JSNum 1, ''parent'' \<mapsto> JSRef 0],
              inherited = Map.empty, elems = None\<rparr>)"

section \<open>Reachable entities\<close>

text \<open>
  The values \<open>extractObjectsById\<close> calls itself for, from one relation of an entity: the
  elements of an array, the value itself otherwise, none when the value is absent or falsy.
  Each comes with the metadata of the relation's other side.
\<close>

definition relationChildren ::
    "heap \<Rightarrow> EntityMetadataCollection \<Rightarrow> val \<Rightarrow> RelationMetadata \<Rightarrow> (val \<times> EntityMetadata) set" where
  "relationChildren h ms entity relation =
     (case getProp h entity (relationSlot relation) of
        Inl e \<Rightarrow> {}
      | Inr v \<Rightarrow>
          (if \<not> truthy v then {}
           else (case arrayElems h v of
                   Some subEntities \<Rightarrow>
                     (\<lambda>subEntity. (subEntity, ms (inverseEntityMetadata relation))) ` set subEntities
                 | None \<Rightarrow> {(v, ms (inverseEntityMetadata relation))})))"

primrec children ::
    "heap \<Rightarrow> EntityMetadataCollection \<Rightarrow> val \<Rightarrow> RelationMetadata list \<Rightarrow> (val \<times> EntityMetadata) set" where
  "children h ms entity [] = {}"
| "children h ms entity (relation # rest) =
     relationChildren h ms entity relation \<union> children h ms entity rest"

definition walkStep ::
    "heap \<Rightarrow> EntityMetadataCollection \<Rightarrow> val \<times> EntityMetadata \<Rightarrow> val \<times> EntityMetadata \<Rightarrow> bool" where
  "walkStep h ms x c = (c \<in> children h ms (fst x) (relations (snd x)))"

text \<open>The object references reachable from an entity through the declared relations.\<close>

definition reachable ::
    "heap \<Rightarrow> EntityMetadataCollection \<Rightarrow> val \<times> EntityMetadata \<Rightarrow> val set" where
  "reachable h ms x = fst ` {c. (walkStep h ms)\<^sup>*\<^sup>* x c}"

section \<open>The storage collaborators\<close>

text \<open>
  The driver, the query builder and the transformers are outside the repository class.
  Every call the repository makes to them is recorded, and what they answer is a
  parameter of the model.
\<close>

datatype DriverCall =
    Insert string "(string \<times> val) list"
  | Update string "(string \<times> val) list" "(string \<times> val) list"
  | JunctionDelete string "(string \<times> string \<times> nat) list" "(nat \<times> val) list" val

text \<open>
  \<open>JunctionDelete table disjuncts parameters entityId\<close> is the executed delete query on
  \<open>table\<close>: the disjunct \<open>(first, second, index)\<close> is the condition
  \<^verbatim>\<open>(first=:entityId AND second=:relatedEntity_index)\<close> added by \<open>orWhere\<close>, the parameter
  list holds each index with the value bound to \<open>relatedEntity_index\<close>, and the last
  argument is the value bound to \<open>entityId\<close>.
\<close>

type_synonym Driver = "DriverCall \<Rightarrow> error option"

text \<open>A JavaScript assignment \<open>values[k] = v\<close> on an object literal, keys in insertion order.\<close>

fun assign :: "(string \<times> val) list \<Rightarrow> string \<Rightarrow> val \<Rightarrow> (string \<times> val) list" where
  "assign [] k v = [(k, v)]"
| "assign (p # ps) k v = (if fst p = k then (k, v) # ps else p # assign ps k v)"

text \<open>\<open>Promise.all\<close> over the calls issued: rejected with the first rejection, in call order.\<close>

fun awaitAll :: "Driver \<Rightarrow> DriverCall list \<Rightarrow> error + unit" where
  "awaitAll driver [] = Inr ()"
| "awaitAll driver (c # cs) =
     (case driver c of Some e \<Rightarrow> Inl e | None \<Rightarrow> awaitAll driver cs)"

section \<open>Transactions\<close>

datatype TransactionStep = BeginTransaction | RunInTransaction | CommitTransaction | RollbackTransaction

record TransactionDriver =
  beginTransaction :: "error option"
  commitTransaction :: "error option"
  rollbackTransaction :: "error option"

text \<open>
  The \<open>catch\<close> handler of \<open>transaction\<close>: it calls \<open>rollbackTransaction\<close> and throws \<open>err\<close>
  from both the \<open>then\<close> and the \<open>catch\<close> callback attached to the rollback.
\<close>

definition rollbackAndRethrow ::
    "TransactionDriver \<Rightarrow> TransactionStep list \<Rightarrow> error \<Rightarrow> TransactionStep list \<times> (error + val)" where
  "rollbackAndRethrow driver steps err =
     (steps @ [RollbackTransaction],
      (case rollbackTransaction driver of
         None \<Rightarrow> Inl err
       | Some rollbackError \<Rightarrow> Inl err))"

text \<open>
  \<open>transaction(runInTransaction)\<close>: the steps taken and the settled promise. The second
  argument is what \<open>runInTransaction()\<close> gives: a thrown error or rejection, or its result.
\<close>

definition transaction ::
    "TransactionDriver \<Rightarrow> (error + val) \<Rightarrow> TransactionStep list \<times> (error + val)" where
  "transaction driver runInTransaction =
     (case beginTransaction driver of
        Some err \<Rightarrow> rollbackAndRethrow driver [BeginTransaction] err
      | None \<Rightarrow>
          (case runInTransaction of
             Inl err \<Rightarrow> rollbackAndRethrow driver [BeginTransaction, RunInTransaction] err
           | Inr result \<Rightarrow>
               (case commitTransaction driver of
                  Some err \<Rightarrow>
                    rollbackAndRethrow driver
                      [BeginTransaction, RunInTransaction, CommitTransaction] err
                | None \<Rightarrow>
                    ([BeginTransaction, RunInTransaction, CommitTransaction], Inr result))))"

section \<open>Relation mutations\<close>

text \<open>
  Modelled from the spec: \<open>EntityMetadata.hasRelationWithPropertyName\<close> and
  \<open>findRelationWithPropertyName\<close> are declared outside the repository class; the spec
  speaks of the relation name being found on the entity metadata, among its ordered
  relation list. The relation name is taken as the property name already computed
  (\<open>computePropertyName\<close>).
\<close>

definition findRelationWithPropertyName :: "EntityMetadata \<Rightarrow> string \<Rightarrow> RelationMetadata option" where
  "findRelationWithPropertyName metadata propertyName =
     find (\<lambda>relation. rel_propertyName relation = propertyName) (relations metadata)"

definition hasRelationWithPropertyName :: "EntityMetadata \<Rightarrow> string \<Rightarrow> bool" where
  "hasRelationWithPropertyName metadata propertyName =
     (findRelationWithPropertyName metadata propertyName \<noteq> None)"

text \<open>
  Modelled from the spec: the string a relation kind prints as in a message
  (\<open>relation.relationType\<close>), after the four kinds the spec lists.
\<close>

fun relationTypeName :: "RelationType \<Rightarrow> string" where
  "relationTypeName OneToOne = ''one-to-one''"
| "relationTypeName OneToMany = ''one-to-many''"
| "relationTypeName ManyToOne = ''many-to-one''"
| "relationTypeName ManyToMany = ''many-to-many''"

definition relationNotFound :: "EntityMetadata \<Rightarrow> string \<Rightarrow> error" where
  "relationNotFound metadata propertyName =
     Error (''Relation '' @ propertyName @ '' was not found in the '' @ md_name metadata
            @ '' entity.'')"

definition onlyManyToManySupported :: "EntityMetadata \<Rightarrow> string \<Rightarrow> RelationMetadata \<Rightarrow> error" where
  "onlyManyToManySupported metadata propertyName relation =
     Error (''Only many-to-many relation supported for this operation. However ''
            @ md_name metadata @ ''#'' @ propertyName @ '' relation type is ''
            @ relationTypeName (relationType relation))"

definition manyToManyNotSupported :: error where
  "manyToManyNotSupported =
     Error (''Many-to-many relation is not supported for this operation. ''
            @ ''Use #addToRelation method for many-to-many relations.'')"

text \<open>\<open>driver.update(table, values, conditions).then(() => {})\<close>.\<close>

definition driverUpdate ::
    "Driver \<Rightarrow> string \<Rightarrow> (string \<times> val) list \<Rightarrow> (string \<times> val) list
      \<Rightarrow> DriverCall list \<times> (error + unit)" where
  "driverUpdate driver table values conditions =
     ([Update table values conditions], awaitAll driver [Update table values conditions])"

text \<open>
  The update through the relation's own join column, and the one through the inverse
  relation's; reading a property of a missing join column or inverse relation throws.
\<close>

definition updateOwnSide ::
    "Driver \<Rightarrow> EntityMetadataCollection \<Rightarrow> RelationMetadata \<Rightarrow> val \<Rightarrow> val
      \<Rightarrow> DriverCall list \<times> (error + unit)" where
  "updateOwnSide driver ms relation entityId relatedEntityId =
     (case joinColumn relation of
        None \<Rightarrow> ([], Inl TypeError)
      | Some referencedColumnName \<Rightarrow>
          driverUpdate driver (md_tableName (ms (entityMetadata relation)))
            (assign [] (rel_name relation) relatedEntityId)
            (assign [] referencedColumnName entityId))"

definition updateInverseSide ::
    "Driver \<Rightarrow> EntityMetadataCollection \<Rightarrow> RelationMetadata \<Rightarrow> val \<Rightarrow> val
      \<Rightarrow> DriverCall list \<times> (error + unit)" where
  "updateInverseSide driver ms relation entityId relatedEntityId =
     (case inverseRelation relation of
        None \<Rightarrow> ([], Inl TypeError)
      | Some inverseSide \<Rightarrow>
          (case inv_joinColumn inverseSide of
             None \<Rightarrow> ([], Inl TypeError)
           | Some referencedColumnName \<Rightarrow>
               driverUpdate driver (md_tableName (ms (inverseEntityMetadata relation)))
                 (assign [] (inv_name inverseSide) relatedEntityId)
                 (assign [] referencedColumnName entityId)))"

definition setRelation ::
    "Driver \<Rightarrow> EntityMetadataCollection \<Rightarrow> EntityMetadata \<Rightarrow> string \<Rightarrow> val \<Rightarrow> val
      \<Rightarrow> DriverCall list \<times> (error + unit)" where
  "setRelation driver ms metadata propertyName entityId relatedEntityId =
     (case findRelationWithPropertyName metadata propertyName of
        None \<Rightarrow> ([], Inl (relationNotFound metadata propertyName))
      | Some relation \<Rightarrow>
          (if isManyToMany relation then ([], Inl manyToManyNotSupported)
           else if isOwning relation
                then updateOwnSide driver ms relation entityId relatedEntityId
                else updateInverseSide driver ms relation entityId relatedEntityId))"

definition setInverseRelation ::
    "Driver \<Rightarrow> EntityMetadataCollection \<Rightarrow> EntityMetadata \<Rightarrow> string \<Rightarrow> val \<Rightarrow> val
      \<Rightarrow> DriverCall list \<times> (error + unit)" where
  "setInverseRelation driver ms metadata propertyName relatedEntityId entityId =
     (case findRelationWithPropertyName metadata propertyName of
        None \<Rightarrow> ([], Inl (relationNotFound metadata propertyName))
      | Some relation \<Rightarrow>
          (if isManyToMany relation then ([], Inl manyToManyNotSupported)
           else if isOwning relation
                then updateInverseSide driver ms relation entityId relatedEntityId
                else updateOwnSide driver ms relation entityId relatedEntityId))"

text \<open>
  \<open>junctionEntityMetadata.table.name\<close>, \<open>columns[0].name\<close> and \<open>columns[1].name\<close>;
  \<open>None\<close> when one of these reads throws a \<open>TypeError\<close>.
\<close>

definition junctionNames :: "RelationMetadata \<Rightarrow> (string \<times> string \<times> string) option" where
  "junctionNames relation =
     (case junctionEntityMetadata relation of
        None \<Rightarrow> None
      | Some junction \<Rightarrow>
          (case junction_columns junction of
             first # second # others \<Rightarrow>
               Some (junction_tableName junction, col_name first, col_name second)
           | _ \<Rightarrow> None))"

text \<open>The body of the \<open>map\<close> callback of \<open>addToRelation\<close>: the insert it hands to the driver.\<close>

definition junctionInsert :: "RelationMetadata \<Rightarrow> val \<Rightarrow> val \<Rightarrow> error + DriverCall" where
  "junctionInsert relation entityId relatedEntityId =
     (case junctionNames relation of
        None \<Rightarrow> Inl TypeError
      | Some (table, first, second) \<Rightarrow>
          Inr (Insert table
            (if isOwning relation
             then assign (assign [] first entityId) second relatedEntityId
             else assign (assign [] second entityId) first relatedEntityId)))"

text \<open>
  \<open>relatedEntityIds.map\<close>: the inserts issued, and the exception that stopped the map if
  one was thrown.
\<close>

fun junctionInserts ::
    "RelationMetadata \<Rightarrow> val \<Rightarrow> val list \<Rightarrow> DriverCall list \<times> error option" where
  "junctionInserts relation entityId [] = ([], None)"
| "junctionInserts relation entityId (relatedEntityId # rest) =
     (case junctionInsert relation entityId relatedEntityId of
        Inl e \<Rightarrow> ([], Some e)
      | Inr call \<Rightarrow>
          (case junctionInserts relation entityId rest of
             (calls, thrown) \<Rightarrow> (call # calls, thrown)))"

text \<open>
  \<open>addToRelation\<close>; the list of related ids is \<open>None\<close> for \<open>null\<close> or \<open>undefined\<close>, on which
  \<open>map\<close> cannot be read.
\<close>

definition addToRelation ::
    "Driver \<Rightarrow> EntityMetadata \<Rightarrow> string \<Rightarrow> val \<Rightarrow> val list option
      \<Rightarrow> DriverCall list \<times> (error + unit)" where
  "addToRelation driver metadata propertyName entityId relatedEntityIds =
     (case findRelationWithPropertyName metadata propertyName of
        None \<Rightarrow> ([], Inl (relationNotFound metadata propertyName))
      | Some relation \<Rightarrow>
          (if \<not> isManyToMany relation
           then ([], Inl (onlyManyToManySupported metadata propertyName relation))
           else (case relatedEntityIds of
                   None \<Rightarrow> ([], Inl TypeError)
                 | Some ids \<Rightarrow>
                     (case junctionInserts relation entityId ids of
                        (calls, Some e) \<Rightarrow> (calls, Inl e)
                      | (calls, None) \<Rightarrow> (calls, awaitAll driver calls)))))"

text \<open>The delete query \<open>removeFromRelation\<close> builds for a non-empty list of related ids.\<close>

definition junctionDelete :: "RelationMetadata \<Rightarrow> val \<Rightarrow> val list \<Rightarrow> error + DriverCall" where
  "junctionDelete relation entityId ids =
     (case junctionNames relation of
        None \<Rightarrow> Inl TypeError
      | Some (table, first, second) \<Rightarrow>
          (let firstColumnName = (if isOwning relation then first else second);
               secondColumnName = (if isOwning relation then second else first)
           in Inr (JunctionDelete table
                (map (\<lambda>index. (firstColumnName, secondColumnName, index)) [0 ..< length ids])
                (zip [0 ..< length ids] ids)
                entityId)))"

definition removeFromRelation ::
    "Driver \<Rightarrow> EntityMetadata \<Rightarrow> string \<Rightarrow> val \<Rightarrow> val list option
      \<Rightarrow> DriverCall list \<times> (error + unit)" where
  "removeFromRelation driver metadata propertyName entityId relatedEntityIds =
     (case findRelationWithPropertyName metadata propertyName of
        None \<Rightarrow> ([], Inl (relationNotFound metadata propertyName))
      | Some relation \<Rightarrow>
          (if \<not> isManyToMany relation
           then ([], Inl (onlyManyToManySupported metadata propertyName relation))
           else (case relatedEntityIds of
                   None \<Rightarrow> ([], Inr ())
                 | Some ids \<Rightarrow>
                     (if length ids = 0 then ([], Inr ())
                      else (case junctionDelete relation entityId ids of
                              Inl e \<Rightarrow> ([], Inl e)
                            | Inr call \<Rightarrow> ([call], awaitAll driver [call]))))))"

section \<open>Identity check, database-state loading, persist and remove\<close>

definition hasId :: "heap \<Rightarrow> EntityMetadata \<Rightarrow> val \<Rightarrow> bool" where
  "hasId h metadata entity =
     (let columnName = col_propertyName (primaryColumn metadata)
      in truthy entity \<and> hasOwnProperty h entity columnName \<and>
         (case getProp h entity columnName of
            Inl e \<Rightarrow> False
          | Inr v \<Rightarrow> v \<noteq> JSNull \<and> v \<noteq> JSUndefined \<and> v \<noteq> JSStr []))"

text \<open>
  What the repository asks of code outside its class: \<open>preload\<close> (the transformer that
  reloads an entity with everything related to it), the point lookup \<open>findOneById\<close> of
  the repository of a target (its query is run by the query builder), and
  \<open>metadata.getEntityId\<close>. The objects they answer with are objects of the store.
\<close>

record Collaborators =
  preload :: "val \<Rightarrow> error + val"
  findOneById :: "target \<Rightarrow> val \<Rightarrow> error + val"
  getEntityId :: "heap \<Rightarrow> val \<Rightarrow> val"

datatype StorageRead = Preload val | FindOneById target val

text \<open>\<open>Promise.all\<close> over settled promises: the values, or the first rejection.\<close>

fun promiseAll :: "(error + 'a) list \<Rightarrow> error + 'a list" where
  "promiseAll [] = Inr []"
| "promiseAll (p # ps) =
     (case p of
        Inl e \<Rightarrow> Inl e
      | Inr x \<Rightarrow> (case promiseAll ps of Inl e \<Rightarrow> Inl e | Inr xs \<Rightarrow> Inr (x # xs)))"

text \<open>
  The two filters of \<open>findNotLoadedIds\<close>: the persisted entities with an id that is neither
  \<open>null\<close> nor \<open>undefined\<close>, for which no database entity has the same target and id.
\<close>

definition notLoaded :: "EntityWithId list \<Rightarrow> EntityWithId list \<Rightarrow> EntityWithId list" where
  "notLoaded dbEntities persistedEntities =
     filter (\<lambda>entityWithId.
               find (\<lambda>dbEntity. ewi_entityTarget dbEntity = ewi_entityTarget entityWithId
                                \<and> ewi_id dbEntity = ewi_id entityWithId) dbEntities = None)
       (filter (\<lambda>entityWithId. ewi_id entityWithId \<noteq> JSNull \<and> ewi_id entityWithId \<noteq> JSUndefined)
          persistedEntities)"

text \<open>
  The \<open>map\<close> callback of \<open>findNotLoadedIds\<close>: the lookup by id and what its \<open>then\<close>
  callback makes of the answer (\<open>None\<close> for \<open>undefined\<close>).
\<close>

definition loadMissing ::
    "Collaborators \<Rightarrow> heap \<Rightarrow> EntityMetadataCollection \<Rightarrow> EntityWithId
      \<Rightarrow> error + EntityWithId option" where
  "loadMissing c h ms entityWithId =
     (let metadata = ms (ewi_entityTarget entityWithId)
      in case findOneById c (ewi_entityTarget entityWithId) (ewi_id entityWithId) of
           Inl e \<Rightarrow> Inl e
         | Inr loadedEntity \<Rightarrow>
             (if \<not> truthy loadedEntity then Inr None
              else (case getProp h loadedEntity (col_name (primaryColumn metadata)) of
                      Inl e \<Rightarrow> Inl e
                    | Inr v \<Rightarrow>
                        Inr (Some \<lparr>ewi_id = v, ewi_entityTarget = md_target metadata,
                                   ewi_entity = loadedEntity\<rparr>))))"

text \<open>The entries that are not \<open>undefined\<close> (\<open>filter(dbEntity => !!dbEntity)\<close>).\<close>

fun defined :: "'a option list \<Rightarrow> 'a list" where
  "defined [] = []"
| "defined (None # xs) = defined xs"
| "defined (Some x # xs) = x # defined xs"

definition findNotLoadedIds ::
    "Collaborators \<Rightarrow> heap \<Rightarrow> EntityMetadataCollection \<Rightarrow> EntityWithId list \<Rightarrow> EntityWithId list
      \<Rightarrow> StorageRead list \<times> (error + EntityWithId list)" where
  "findNotLoadedIds c h ms dbEntities persistedEntities =
     (let missing = notLoaded dbEntities persistedEntities
      in (map (\<lambda>entityWithId. FindOneById (ewi_entityTarget entityWithId) (ewi_id entityWithId))
            missing,
          (case promiseAll (map (loadMissing c h ms) missing) of
             Inl e \<Rightarrow> Inl e
           | Inr missingDbEntities \<Rightarrow> Inr (dbEntities @ defined missingDbEntities))))"

text \<open>
  \<open>persist\<close> and \<open>remove\<close>, for one entity (the branch after the test for an array), up to
  the call of the operation builder, which is outside the repository class: the result is
  the reads made from storage and the arguments handed to the builder.
\<close>

record BuilderArguments =
  arg_dbEntity :: EntityWithId
  arg_persistedEntity :: EntityWithId
  arg_dbEntities :: "EntityWithId list"
  arg_allPersistedEntities :: "EntityWithId list"

text \<open>
  The database-state load of \<open>persist\<close>: \<open>loadedDbEntity\<close> is \<open>null\<close> unless \<open>hasId\<close> holds,
  in which case \<open>preload\<close> is awaited.
\<close>

definition loadDbEntity ::
    "Collaborators \<Rightarrow> heap \<Rightarrow> EntityMetadata \<Rightarrow> val \<Rightarrow> StorageRead list \<times> (error + val)" where
  "loadDbEntity c h metadata entity =
     (if hasId h metadata entity then ([Preload entity], preload c entity)
      else ([], Inr JSNull))"

definition persist ::
    "nat \<Rightarrow> Collaborators \<Rightarrow> heap \<Rightarrow> EntityMetadataCollection \<Rightarrow> EntityMetadata \<Rightarrow> val
      \<Rightarrow> (StorageRead list \<times> (error + BuilderArguments)) option" where
  "persist fuel c h ms metadata entity =
     (case extractObjectsById fuel h ms entity metadata [] of
        None \<Rightarrow> None
      | Some (Inl e) \<Rightarrow> Some ([], Inl e)
      | Some (Inr allPersistedEntities) \<Rightarrow>
          (case loadDbEntity c h metadata entity of
             (reads, Inl e) \<Rightarrow> Some (reads, Inl e)
           | (reads, Inr loadedDbEntity) \<Rightarrow>
               (case (if truthy loadedDbEntity
                      then extractObjectsById fuel h ms loadedDbEntity metadata []
                      else Some (Inr [])) of
                  None \<Rightarrow> None
                | Some (Inl e) \<Rightarrow> Some (reads, Inl e)
                | Some (Inr entityWithIds) \<Rightarrow>
                    (case findNotLoadedIds c h ms entityWithIds allPersistedEntities of
                       (lookups, Inl e) \<Rightarrow> Some (reads @ lookups, Inl e)
                     | (lookups, Inr allDbEntities) \<Rightarrow>
                         Some (reads @ lookups,
                           Inr \<lparr>arg_dbEntity =
                                  \<lparr>ewi_id = getEntityId c h loadedDbEntity,
                                   ewi_entityTarget = md_target metadata,
                                   ewi_entity = loadedDbEntity\<rparr>,
                                arg_persistedEntity =
                                  \<lparr>ewi_id = getEntityId c h entity,
                                   ewi_entityTarget = md_target metadata,
                                   ewi_entity = entity\<rparr>,
                                arg_dbEntities = allDbEntities,
                                arg_allPersistedEntities = allPersistedEntities\<rparr>)))))"

text \<open>
  The assignment \<open>entity[primaryColumn.name] = undefined\<close> of \<open>remove\<close>: on an object it
  sets the own property; on anything else it throws (the module is compiled in strict
  mode).
\<close>

fun clearPrimaryColumn :: "heap \<Rightarrow> EntityMetadata \<Rightarrow> val \<Rightarrow> error + heap" where
  "clearPrimaryColumn h metadata (JSRef a) =
     Inr (setOwn h a (col_name (primaryColumn metadata)) JSUndefined)"
| "clearPrimaryColumn h metadata v = Inl TypeError"

text \<open>
  \<open>remove\<close> returns the store as it leaves it, whatever the outcome, since the caller
  keeps the entity.
\<close>

definition remove ::
    "nat \<Rightarrow> Collaborators \<Rightarrow> heap \<Rightarrow> EntityMetadataCollection \<Rightarrow> EntityMetadata \<Rightarrow> val
      \<Rightarrow> heap \<times> (error + BuilderArguments) option" where
  "remove fuel c h ms metadata entity =
     (case preload c entity of
        Inl e \<Rightarrow> (h, Some (Inl e))
      | Inr dbEntity \<Rightarrow>
          (case clearPrimaryColumn h metadata entity of
             Inl e \<Rightarrow> (h, Some (Inl e))
           | Inr h' \<Rightarrow>
               (h',
                (case extractObjectsById fuel h' ms dbEntity metadata [] of
                   None \<Rightarrow> None
                 | Some (Inl e) \<Rightarrow> Some (Inl e)
                 | Some (Inr dbEntities) \<Rightarrow>
                     (case extractObjectsById fuel h' ms entity metadata [] of
                        None \<Rightarrow> None
                      | Some (Inl e) \<Rightarrow> Some (Inl e)
                      | Some (Inr allPersistedEntities) \<Rightarrow>
                          Some (Inr \<lparr>arg_dbEntity =
                                       \<lparr>ewi_id = getEntityId c h' dbEntity,
                                        ewi_entityTarget = md_target metadata,
                                        ewi_entity = dbEntity\<rparr>,
                                     arg_persistedEntity =
                                       \<lparr>ewi_id = getEntityId c h' entity,
                                        ewi_entityTarget = md_target metadata,
                                        ewi_entity = entity\<rparr>,
                                     arg_dbEntities = dbEntities,
                                     arg_allPersistedEntities = allPersistedEntities\<rparr>))))))"

section \<open>Example metadata and drivers\<close>

text \<open>\<open>err.message\<close>.\<close>

fun message :: "error \<Rightarrow> string" where
  "message (Error m) = m"
| "message (StorageError m) = m"
| "message TypeError = []"

text \<open>
  A post with a many-to-many relation \<open>categories\<close>, of which it is the owning side,
  and a many-to-one relation \<open>author\<close>.
\<close>

definition categoriesRelation :: RelationMetadata where
  "categoriesRelation =
     \<lparr>rel_name = ''categories'', rel_propertyName = ''categories'', relationType = ManyToMany,
      isOwning = True, isLazy = False, entityMetadata = ''Post'',
      inverseEntityMetadata = ''Category'', joinColumn = None,
      inverseRelation = None,
      junctionEntityMetadata =
        Some \<lparr>junction_tableName = ''post_categories'',
              junction_columns =
                [\<lparr>col_name = ''postId'', col_propertyName = ''postId''\<rparr>,
                 \<lparr>col_name = ''categoryId'', col_propertyName = ''categoryId''\<rparr>]\<rparr>\<rparr>"

definition authorRelation :: RelationMetadata where
  "authorRelation =
     \<lparr>rel_name = ''author'', rel_propertyName = ''author'', relationType = ManyToOne,
      isOwning = True, isLazy = False, entityMetadata = ''Post'',
      inverseEntityMetadata = ''Author'', joinColumn = Some ''id'',
      inverseRelation = None, junctionEntityMetadata = None\<rparr>"

definition postMetadata :: EntityMetadata where
  "postMetadata =
     \<lparr>md_target = ''Post'', md_name = ''Post'', md_tableName = ''post'',
      primaryColumn = \<lparr>col_name = ''id'', col_propertyName = ''id''\<rparr>,
      relations = [categoriesRelation, authorRelation]\<rparr>"

text \<open>A driver on which every call succeeds.\<close>

definition acceptingDriver :: Driver where
  "acceptingDriver = (\<lambda>call. None)"

text \<open>Two transaction drivers that differ only in whether the rollback fails.\<close>

definition failingRollback :: TransactionDriver where
  "failingRollback =
     \<lparr>beginTransaction = None, commitTransaction = None,
      rollbackTransaction = Some (StorageError ''rollback failed'')\<rparr>"

definition workingRollback :: TransactionDriver where
  "workingRollback =
     \<lparr>beginTransaction = None, commitTransaction = None, rollbackTransaction = None\<rparr>"

text \<open>A tag with the relation \<open>posts\<close>, the inverse side of a many-to-many relation.\<close>

definition postsRelation :: RelationMetadata where
  "postsRelation =
     \<lparr>rel_name = ''posts'', rel_propertyName = ''posts'', relationType = ManyToMany,
      isOwning = False, isLazy = False, entityMetadata = ''Tag'',
      inverseEntityMetadata = ''Post'', joinColumn = None,
      inverseRelation = Some \<lparr>inv_name = ''tags'', inv_joinColumn = None\<rparr>,
      junctionEntityMetadata =
        Some \<lparr>junction_tableName = ''post_tags'',
              junction_columns =
                [\<lparr>col_name = ''postId'', col_propertyName = ''postId''\<rparr>,
                 \<lparr>col_name = ''tagId'', col_propertyName = ''tagId''\<rparr>]\<rparr>\<rparr>"

definition tagMetadata :: EntityMetadata where
  "tagMetadata =
     \<lparr>md_target = ''Tag'', md_name = ''Tag'', md_tableName = ''tag'',
      primaryColumn = \<lparr>col_name = ''id'', col_propertyName = ''id''\<rparr>,
      relations = [postsRelation]\<rparr>"

definition exampleMetadatas :: EntityMetadataCollection where
  "exampleMetadatas t = (if t = ''Category'' then categoryMetadata else postMetadata)"

text \<open>
  A store with: a post without an id (21); a post that sees an id only through its
  prototype chain (22); a post with id 5 (23) and the object loaded for it from the
  database (24); a post (10) whose \<open>categories\<close> array (11) holds two distinct objects
  (12, 13) that both carry the id 1.
\<close>

definition exampleHeap :: heap where
  "exampleHeap =
     (\<lambda>a. emptyObject)
       (21 := \<lparr>own = [''title'' \<mapsto> JSStr ''draft''], inherited = Map.empty, elems = None\<rparr>,
        22 := \<lparr>own = [''title'' \<mapsto> JSStr ''draft''], inherited = [''id'' \<mapsto> JSNum 7],
               elems = None\<rparr>,
        23 := \<lparr>own = [''id'' \<mapsto> JSNum 5], inherited = Map.empty, elems = None\<rparr>,
        24 := \<lparr>own = [''id'' \<mapsto> JSNum 5], inherited = Map.empty, elems = None\<rparr>,
        10 := \<lparr>own = [''id'' \<mapsto> JSNum 9, ''categories'' \<mapsto> JSRef 11],
                inherited = Map.empty, elems = None\<rparr>,
        11 := \<lparr>own = Map.empty, inherited = Map.empty, elems = Some [JSRef 12, JSRef 13]\<rparr>,
        12 := \<lparr>own = [''id'' \<mapsto> JSNum 1], inherited = Map.empty, elems = None\<rparr>,
        13 := \<lparr>own = [''id'' \<mapsto> JSNum 1], inherited = Map.empty, elems = None\<rparr>)"

text \<open>
  Collaborators over this store: \<open>preload\<close> finds the post with id 5, the point lookup
  finds the category with id 1 and nothing else, and the entity id is the property \<open>id\<close>.
\<close>

definition exampleCollaborators :: Collaborators where
  "exampleCollaborators =
     \<lparr>preload = (\<lambda>entity. if entity = JSRef 23 then Inr (JSRef 24) else Inr JSUndefined),
      findOneById =
        (\<lambda>t i. if t = ''Category'' \<and> i = JSNum 1 then Inr (JSRef 13) else Inr JSUndefined),
      getEntityId = (\<lambda>h entity. case getProp h entity ''id'' of Inl e \<Rightarrow> JSUndefined | Inr v \<Rightarrow> v)\<rparr>"

section \<open>What a collection holds\<close>

text \<open>
  The reading of the specification: among the entries with an id, no two share the
  same entity target and the same id.
\<close>

definition uniqueRowIdentities :: "EntityWithId list \<Rightarrow> bool" where
  "uniqueRowIdentities found =
     distinct (map (\<lambda>entityWithId. (ewi_entityTarget entityWithId, ewi_id entityWithId))
                (filter (\<lambda>entityWithId. ewi_id entityWithId \<noteq> JSNull
                                        \<and> ewi_id entityWithId \<noteq> JSUndefined) found))"

text \<open>
  What a run of the collection does to the shared array: it only appends, it keeps the
  objects of the entries distinct, and the objects it adds are the ones it walked.
\<close>

definition collected :: "EntityWithId list \<Rightarrow> EntityWithId list \<Rightarrow> val set \<Rightarrow> bool" where
  "collected before after walked =
     (prefix before after
      \<and> (distinct (map ewi_entity before) \<longrightarrow> distinct (map ewi_entity after))
      \<and> ewi_entity ` set after = ewi_entity ` set before \<union> walked)"

text \<open>
  The walks from an entity are within depth \<open>d\<close> when none of them makes \<open>d\<close> steps: an
  entity without related values is within depth 1, and no entity of a cyclic graph is
  within any depth.
\<close>

fun withinDepth ::
    "nat \<Rightarrow> heap \<Rightarrow> EntityMetadataCollection \<Rightarrow> val \<times> EntityMetadata \<Rightarrow> bool" where
  "withinDepth 0 h ms x = False"
| "withinDepth (Suc d) h ms x =
     (\<forall>c \<in> children h ms (fst x) (relations (snd x)). withinDepth d h ms c)"

text \<open>
  Collaborators whose storage cannot be reached: every read is rejected.
\<close>

definition unreachableStorage :: Collaborators where
  "unreachableStorage =
     \<lparr>preload = (\<lambda>entity. Inl (StorageError ''connection lost'')),
      findOneById = (\<lambda>t i. Inl (StorageError ''connection lost'')),
      getEntityId = (\<lambda>h entity. case getProp h entity ''id'' of Inl e \<Rightarrow> JSUndefined | Inr v \<Rightarrow> v)\<rparr>"

text \<open>
  Metadata of a post whose primary column is named \<open>post_id\<close> in the table and \<open>id\<close> on
  the object.
\<close>

definition legacyPostMetadata :: EntityMetadata where
  "legacyPostMetadata =
     \<lparr>md_target = ''Post'', md_name = ''Post'', md_tableName = ''post'',
      primaryColumn = \<lparr>col_name = ''post_id'', col_propertyName = ''id''\<rparr>,
      relations = []\<rparr>"

section \<open>Theorems\<close>

lemma selfReferencing_parent:
  "objGet (selfReferencingHeap 0) (relationSlot parentRelation) = JSRef 0"
  by (simp add: selfReferencingHeap_def relationSlot_def parentRelation_def objGet_def)

lemma selfReferencing_not_array: "elems (selfReferencingHeap 0) = None"
  by (simp add: selfReferencingHeap_def)

text \<open>
  C1. Graph collection is claimed to terminate on self-referencing graphs. On the
  category that is its own parent, \<open>extractObjectsById\<close> does not return, whatever depth
  of nested calls is allowed and whatever the array already holds: the look-up by object
  reference happens after the nested calls, so it never stops them.
\<close>

theorem extractObjectsById_self_reference_never_returns:
  "extractObjectsById fuel selfReferencingHeap (\<lambda>t. categoryMetadata) (JSRef 0)
     categoryMetadata entityWithIds = None"
proof (induction fuel arbitrary: entityWithIds)
  case 0
  show ?case by simp
next
  case (Suc n)
  have "extractRelations n selfReferencingHeap (\<lambda>t. categoryMetadata) (JSRef 0)
          [parentRelation] entityWithIds = None"
    using Suc.IH [of entityWithIds]
    by (simp add: selfReferencing_parent selfReferencing_not_array)
  then show ?case
    by (simp add: categoryMetadata_def)
qed

subsection \<open>Relation mutations and transactions\<close>

lemma find_categories:
  "findRelationWithPropertyName postMetadata ''categories'' = Some categoriesRelation"
  by (simp add: findRelationWithPropertyName_def postMetadata_def categoriesRelation_def)

lemma find_author:
  "findRelationWithPropertyName postMetadata ''author'' = Some authorRelation"
  by (simp add: findRelationWithPropertyName_def postMetadata_def categoriesRelation_def
      authorRelation_def)

lemma categories_manyToMany: "isManyToMany categoriesRelation"
  by (simp add: isManyToMany_def categoriesRelation_def)

lemma author_not_manyToMany: "\<not> isManyToMany authorRelation"
  by (simp add: isManyToMany_def authorRelation_def)

text \<open>
  C3. On a many-to-many relation, \<open>removeFromRelation\<close> with an empty list of related ids,
  or with \<open>null\<close> or \<open>undefined\<close> in its place, resolves without any call to the driver:
  no delete is issued, whatever the owner's id.
\<close>

theorem removeFromRelation_empty_ids_no_delete:
  assumes "findRelationWithPropertyName metadata propertyName = Some relation"
    and "isManyToMany relation"
    and "relatedEntityIds = None \<or> relatedEntityIds = Some []"
  shows "removeFromRelation driver metadata propertyName entityId relatedEntityIds = ([], Inr ())"
  using assms by (auto simp: removeFromRelation_def)

theorem removeFromRelation_empty_ids_no_delete_witness:
  "removeFromRelation acceptingDriver postMetadata ''categories'' (JSNum 1) (Some []) = ([], Inr ())
   \<and> removeFromRelation acceptingDriver postMetadata ''categories'' (JSNum 1) None = ([], Inr ())"
  using removeFromRelation_empty_ids_no_delete
      [OF find_categories categories_manyToMany, of "Some []" acceptingDriver "JSNum 1"]
    removeFromRelation_empty_ids_no_delete
      [OF find_categories categories_manyToMany, of None acceptingDriver "JSNum 1"]
  by simp

text \<open>
  C4, as claimed: when the rollback fails too, its failure is rethrown with the original
  error. It is not: with \<open>runInTransaction\<close> failing on \<open>insert failed\<close> and the rollback
  failing on \<open>rollback failed\<close>, the promise is rejected with \<open>insert failed\<close> alone, the
  very outcome of the run in which the rollback succeeds.
\<close>

theorem transaction_drops_rollback_failure:
  "transaction failingRollback (Inl (StorageError ''insert failed''))
     = ([BeginTransaction, RunInTransaction, RollbackTransaction],
        Inl (StorageError ''insert failed''))
   \<and> transaction failingRollback (Inl (StorageError ''insert failed''))
     = transaction workingRollback (Inl (StorageError ''insert failed''))"
  by (simp add: transaction_def rollbackAndRethrow_def failingRollback_def workingRollback_def)

text \<open>
  C4, amended. When the transaction has begun and \<open>runInTransaction\<close> or the commit fails
  with \<open>err\<close>, the rollback is called as the last step and the promise is rejected with
  \<open>err\<close>, the original error, whether the rollback succeeds or fails.
\<close>

theorem transaction_failure_rolls_back_rejects_original:
  assumes "beginTransaction driver = None"
    and "runInTransaction = Inl err
         \<or> (runInTransaction = Inr result \<and> commitTransaction driver = Some err)"
  shows "snd (transaction driver runInTransaction) = Inl err
         \<and> fst (transaction driver runInTransaction)
             = (if runInTransaction = Inl err
                then [BeginTransaction, RunInTransaction, RollbackTransaction]
                else [BeginTransaction, RunInTransaction, CommitTransaction,
                      RollbackTransaction])"
  using assms
  by (auto simp: transaction_def rollbackAndRethrow_def split: option.splits)

theorem transaction_failure_rolls_back_rejects_original_witness:
  "snd (transaction failingRollback (Inl (StorageError ''insert failed'')))
     = Inl (StorageError ''insert failed'')
   \<and> fst (transaction failingRollback (Inl (StorageError ''insert failed'')))
     = [BeginTransaction, RunInTransaction, RollbackTransaction]"
proof -
  have b: "beginTransaction failingRollback = None"
    by (simp add: failingRollback_def)
  have r: "(Inl (StorageError ''insert failed'') :: error + val) = Inl (StorageError ''insert failed'')
         \<or> ((Inl (StorageError ''insert failed'') :: error + val) = Inr JSNull
             \<and> commitTransaction failingRollback = Some (StorageError ''insert failed''))"
    by simp
  show ?thesis
    using transaction_failure_rolls_back_rejects_original [OF b r] by simp
qed

text \<open>
  C5, as claimed: every mismatch of relation kind fails with an error that names the
  relation and the entity. \<open>setRelation\<close> on the many-to-many relation \<open>categories\<close> of
  \<open>Post\<close> fails, without a write, with a fixed message that contains neither name.
\<close>

theorem setRelation_message_names_nothing:
  "setRelation acceptingDriver (\<lambda>t. postMetadata) postMetadata ''categories'' (JSNum 1) (JSNum 2)
     = ([], Inl manyToManyNotSupported)
   \<and> \<not> sublist ''categories'' (message manyToManyNotSupported)
   \<and> \<not> sublist ''Post'' (message manyToManyNotSupported)"
proof -
  have "\<not> sublist ''categories'' (message manyToManyNotSupported)"
    unfolding manyToManyNotSupported_def by code_simp
  moreover have "\<not> sublist ''Post'' (message manyToManyNotSupported)"
    unfolding manyToManyNotSupported_def by code_simp
  ultimately show ?thesis
    by (simp add: setRelation_def find_categories categories_manyToMany)
qed

text \<open>
  C5, amended. For a relation found on the metadata: when it is not many-to-many,
  \<open>addToRelation\<close> and \<open>removeFromRelation\<close> fail, without any call to the driver, with an
  error whose message contains the entity's name and the relation's property name; when
  it is many-to-many, \<open>setRelation\<close> and \<open>setInverseRelation\<close> fail, without any call to the
  driver, with the fixed error that points to \<open>addToRelation\<close>.
\<close>

theorem relation_kind_mismatch_rejected_without_write:
  assumes "findRelationWithPropertyName metadata propertyName = Some relation"
  shows "(\<not> isManyToMany relation \<longrightarrow>
            addToRelation driver metadata propertyName entityId relatedEntityIds
              = ([], Inl (onlyManyToManySupported metadata propertyName relation))
          \<and> removeFromRelation driver metadata propertyName entityId relatedEntityIds
              = ([], Inl (onlyManyToManySupported metadata propertyName relation))
          \<and> sublist (md_name metadata)
              (message (onlyManyToManySupported metadata propertyName relation))
          \<and> sublist propertyName
              (message (onlyManyToManySupported metadata propertyName relation)))
       \<and> (isManyToMany relation \<longrightarrow>
            setRelation driver ms metadata propertyName entityId relatedEntityId
              = ([], Inl manyToManyNotSupported)
          \<and> setInverseRelation driver ms metadata propertyName relatedEntityId entityId
              = ([], Inl manyToManyNotSupported))"
proof -
  have "sublist (md_name metadata)
          (message (onlyManyToManySupported metadata propertyName relation))"
    unfolding onlyManyToManySupported_def message.simps by (rule sublist_appendI)
  moreover have "sublist propertyName
          (message (onlyManyToManySupported metadata propertyName relation))"
  proof -
    have "message (onlyManyToManySupported metadata propertyName relation)
          = (''Only many-to-many relation supported for this operation. However ''
              @ md_name metadata @ ''#'') @ propertyName
            @ ('' relation type is '' @ relationTypeName (relationType relation))"
      by (simp add: onlyManyToManySupported_def)
    then show ?thesis by (metis sublist_appendI)
  qed
  ultimately show ?thesis
    using assms
    by (simp add: addToRelation_def removeFromRelation_def setRelation_def
        setInverseRelation_def)
qed

theorem relation_kind_mismatch_rejected_without_write_witness:
  "addToRelation acceptingDriver postMetadata ''author'' (JSNum 1) (Some [JSNum 2])
     = ([], Inl (onlyManyToManySupported postMetadata ''author'' authorRelation))
   \<and> sublist ''Post'' (message (onlyManyToManySupported postMetadata ''author'' authorRelation))
   \<and> sublist ''author'' (message (onlyManyToManySupported postMetadata ''author'' authorRelation))
   \<and> setRelation acceptingDriver (\<lambda>t. postMetadata) postMetadata ''categories'' (JSNum 1) (JSNum 2)
     = ([], Inl manyToManyNotSupported)"
proof -
  have n: "md_name postMetadata = ''Post''"
    by (simp add: postMetadata_def)
  show ?thesis
    using relation_kind_mismatch_rejected_without_write [OF find_author,
        of acceptingDriver "JSNum 1" "Some [JSNum 2]" "\<lambda>t. postMetadata" "JSNum 2"]
      relation_kind_mismatch_rejected_without_write [OF find_categories,
        of acceptingDriver "JSNum 1" "Some [JSNum 2]" "\<lambda>t. postMetadata" "JSNum 2"]
      author_not_manyToMany categories_manyToMany n
    by simp
qed

subsection \<open>Junction rows\<close>

lemma assign_two:
  "first \<noteq> second \<Longrightarrow> assign (assign [] first x) second y = [(first, x), (second, y)]"
  by simp

lemma junctionInserts_rows:
  assumes "junctionNames relation = Some (table, first, second)" and "first \<noteq> second"
  shows "junctionInserts relation entityId ids
         = (map (\<lambda>relatedEntityId. Insert table
                   (if isOwning relation
                    then [(first, entityId), (second, relatedEntityId)]
                    else [(second, entityId), (first, relatedEntityId)])) ids, None)"
proof (induction ids)
  case Nil
  show ?case by simp
next
  case (Cons relatedEntityId rest)
  have "junctionInsert relation entityId relatedEntityId
        = Inr (Insert table
                 (if isOwning relation
                  then [(first, entityId), (second, relatedEntityId)]
                  else [(second, entityId), (first, relatedEntityId)]))"
    using assms by (auto simp: junctionInsert_def)
  with Cons.IH show ?case by simp
qed

text \<open>
  C8. For a many-to-many relation whose junction table has the two distinct columns
  \<open>first\<close> and \<open>second\<close>, \<open>addToRelation\<close> hands the driver one insert per related id, in
  order: on the owning side the row gives \<open>entityId\<close> to \<open>first\<close> and the related id to
  \<open>second\<close>; on the inverse side it gives \<open>entityId\<close> to \<open>second\<close> and the related id to
  \<open>first\<close>.
\<close>

theorem addToRelation_owning_id_in_first_column:
  assumes "findRelationWithPropertyName metadata propertyName = Some relation"
    and "isManyToMany relation"
    and "junctionNames relation = Some (table, first, second)"
    and "first \<noteq> second"
  shows "fst (addToRelation driver metadata propertyName entityId (Some ids))
         = map (\<lambda>relatedEntityId. Insert table
                  (if isOwning relation
                   then [(first, entityId), (second, relatedEntityId)]
                   else [(second, entityId), (first, relatedEntityId)])) ids"
  using assms(1,2) junctionInserts_rows [OF assms(3,4)]
  by (simp add: addToRelation_def)

theorem addToRelation_owning_id_in_first_column_witness:
  "fst (addToRelation acceptingDriver postMetadata ''categories'' (JSNum 1)
          (Some [JSNum 10, JSNum 20]))
     = [Insert ''post_categories'' [(''postId'', JSNum 1), (''categoryId'', JSNum 10)],
        Insert ''post_categories'' [(''postId'', JSNum 1), (''categoryId'', JSNum 20)]]
   \<and> fst (addToRelation acceptingDriver tagMetadata ''posts'' (JSNum 3) (Some [JSNum 10]))
     = [Insert ''post_tags'' [(''tagId'', JSNum 3), (''postId'', JSNum 10)]]"
proof -
  have j: "junctionNames categoriesRelation = Some (''post_categories'', ''postId'', ''categoryId'')"
    by (simp add: junctionNames_def categoriesRelation_def)
  have d: "''postId'' \<noteq> ''categoryId''" by simp
  have o: "isOwning categoriesRelation"
    by (simp add: categoriesRelation_def)
  have f': "findRelationWithPropertyName tagMetadata ''posts'' = Some postsRelation"
    by (simp add: findRelationWithPropertyName_def tagMetadata_def postsRelation_def)
  have m': "isManyToMany postsRelation"
    by (simp add: isManyToMany_def postsRelation_def)
  have j': "junctionNames postsRelation = Some (''post_tags'', ''postId'', ''tagId'')"
    by (simp add: junctionNames_def postsRelation_def)
  have d': "''postId'' \<noteq> ''tagId''" by simp
  have o': "\<not> isOwning postsRelation"
    by (simp add: postsRelation_def)
  show ?thesis
    using addToRelation_owning_id_in_first_column
        [OF find_categories categories_manyToMany j d, of acceptingDriver "JSNum 1"
          "[JSNum 10, JSNum 20]"]
      addToRelation_owning_id_in_first_column
        [OF f' m' j' d', of acceptingDriver "JSNum 3" "[JSNum 10]"]
      o o'
    by simp
qed

subsection \<open>Identity check and database-state loading\<close>

lemma hasId_own:
  "hasId h metadata entity \<Longrightarrow>
     \<exists>a v. entity = JSRef a \<and> own (h a) (col_propertyName (primaryColumn metadata)) = Some v
       \<and> v \<noteq> JSNull \<and> v \<noteq> JSUndefined \<and> v \<noteq> JSStr []"
  by (cases entity) (auto simp: hasId_def Let_def objGet_def)

lemma persist_without_id_no_preload:
  assumes "\<not> hasId h metadata entity"
    and "persist fuel c h ms metadata entity = Some (reads, outcome)"
  shows "Preload x \<notin> set reads"
  using assms
  by (auto simp: persist_def loadDbEntity_def findNotLoadedIds_def Let_def
      split: option.splits sum.splits prod.splits if_splits)

lemma persist_without_id_null_dbEntity:
  assumes "\<not> hasId h metadata entity"
    and "persist fuel c h ms metadata entity = Some (reads, Inr args)"
  shows "ewi_entity (arg_dbEntity args) = JSNull"
  using assms
  by (auto simp: persist_def loadDbEntity_def findNotLoadedIds_def Let_def
      split: option.splits sum.splits prod.splits if_splits)

lemma persist_without_id:
  assumes "\<not> hasId h metadata entity"
  shows "persist fuel c h ms metadata entity = Some (reads, outcome) \<longrightarrow>
           Preload x \<notin> set reads
           \<and> (outcome = Inr args \<longrightarrow> ewi_entity (arg_dbEntity args) = JSNull)"
  using persist_without_id_no_preload [OF assms] persist_without_id_null_dbEntity [OF assms]
  by blast

lemma persist_preload_only_with_id:
  "persist fuel c h ms metadata entity = Some (reads, outcome) \<longrightarrow>
     Preload x \<in> set reads \<longrightarrow> hasId h metadata entity"
  using persist_without_id_no_preload by blast

lemma example_draft_extract:
  "extractObjectsById (Suc 0) exampleHeap exampleMetadatas (JSRef 21) postMetadata []
   = Some (Inr [\<lparr>ewi_id = JSUndefined, ewi_entityTarget = ''Post'', ewi_entity = JSRef 21\<rparr>])"
  by (simp add: exampleHeap_def postMetadata_def categoriesRelation_def authorRelation_def
      relationSlot_def objGet_def)

lemma example_inheriting_extract:
  "extractObjectsById (Suc 0) exampleHeap exampleMetadatas (JSRef 22) postMetadata []
   = Some (Inr [\<lparr>ewi_id = JSNum 7, ewi_entityTarget = ''Post'', ewi_entity = JSRef 22\<rparr>])"
  by (simp add: exampleHeap_def postMetadata_def categoriesRelation_def authorRelation_def
      relationSlot_def objGet_def)

lemma example_saved_extract:
  "extractObjectsById (Suc 0) exampleHeap exampleMetadatas (JSRef 23) postMetadata []
   = Some (Inr [\<lparr>ewi_id = JSNum 5, ewi_entityTarget = ''Post'', ewi_entity = JSRef 23\<rparr>])"
  by (simp add: exampleHeap_def postMetadata_def categoriesRelation_def authorRelation_def
      relationSlot_def objGet_def)

lemma example_loaded_extract:
  "extractObjectsById (Suc 0) exampleHeap exampleMetadatas (JSRef 24) postMetadata []
   = Some (Inr [\<lparr>ewi_id = JSNum 5, ewi_entityTarget = ''Post'', ewi_entity = JSRef 24\<rparr>])"
  by (simp add: exampleHeap_def postMetadata_def categoriesRelation_def authorRelation_def
      relationSlot_def objGet_def)

lemma example_draft_hasId: "\<not> hasId exampleHeap postMetadata (JSRef 21)"
  by (simp add: hasId_def exampleHeap_def postMetadata_def)

lemma example_inheriting_hasId: "\<not> hasId exampleHeap postMetadata (JSRef 22)"
  by (simp add: hasId_def exampleHeap_def postMetadata_def)

lemma example_saved_hasId: "hasId exampleHeap postMetadata (JSRef 23)"
  by (simp add: hasId_def exampleHeap_def postMetadata_def objGet_def)

lemma example_draft_persist:
  "persist (Suc 0) exampleCollaborators exampleHeap exampleMetadatas postMetadata (JSRef 21)
   = Some ([],
       Inr \<lparr>arg_dbEntity =
              \<lparr>ewi_id = JSUndefined, ewi_entityTarget = ''Post'', ewi_entity = JSNull\<rparr>,
            arg_persistedEntity =
              \<lparr>ewi_id = JSUndefined, ewi_entityTarget = ''Post'', ewi_entity = JSRef 21\<rparr>,
            arg_dbEntities = [],
            arg_allPersistedEntities =
              [\<lparr>ewi_id = JSUndefined, ewi_entityTarget = ''Post'', ewi_entity = JSRef 21\<rparr>]\<rparr>)"
  unfolding persist_def example_draft_extract
  by (simp add: loadDbEntity_def example_draft_hasId findNotLoadedIds_def notLoaded_def
      exampleCollaborators_def)  (simp add: postMetadata_def exampleHeap_def objGet_def)

lemma example_inheriting_persist:
  "persist (Suc 0) exampleCollaborators exampleHeap exampleMetadatas postMetadata (JSRef 22)
   = Some ([FindOneById ''Post'' (JSNum 7)],
       Inr \<lparr>arg_dbEntity =
              \<lparr>ewi_id = JSUndefined, ewi_entityTarget = ''Post'', ewi_entity = JSNull\<rparr>,
            arg_persistedEntity =
              \<lparr>ewi_id = JSNum 7, ewi_entityTarget = ''Post'', ewi_entity = JSRef 22\<rparr>,
            arg_dbEntities = [],
            arg_allPersistedEntities =
              [\<lparr>ewi_id = JSNum 7, ewi_entityTarget = ''Post'', ewi_entity = JSRef 22\<rparr>]\<rparr>)"
proof -
  have l: "loadDbEntity exampleCollaborators exampleHeap postMetadata (JSRef 22)
           = ([], Inr JSNull)"
    by (simp add: loadDbEntity_def example_inheriting_hasId)
  have f: "findNotLoadedIds exampleCollaborators exampleHeap exampleMetadatas []
             [\<lparr>ewi_id = JSNum 7, ewi_entityTarget = ''Post'', ewi_entity = JSRef 22\<rparr>]
           = ([FindOneById ''Post'' (JSNum 7)], Inr [])"
    by (simp add: findNotLoadedIds_def notLoaded_def loadMissing_def exampleCollaborators_def)
  have g: "getEntityId exampleCollaborators exampleHeap JSNull = JSUndefined"
    "getEntityId exampleCollaborators exampleHeap (JSRef 22) = JSNum 7"
    by (simp_all add: exampleCollaborators_def exampleHeap_def objGet_def)
  have t: "md_target postMetadata = ''Post''"
    by (simp add: postMetadata_def)
  show ?thesis
    unfolding persist_def example_inheriting_extract l
    by (simp add: f g t)
qed

lemma example_saved_persist:
  "persist (Suc 0) exampleCollaborators exampleHeap exampleMetadatas postMetadata (JSRef 23)
   = Some ([Preload (JSRef 23)],
       Inr \<lparr>arg_dbEntity =
              \<lparr>ewi_id = JSNum 5, ewi_entityTarget = ''Post'', ewi_entity = JSRef 24\<rparr>,
            arg_persistedEntity =
              \<lparr>ewi_id = JSNum 5, ewi_entityTarget = ''Post'', ewi_entity = JSRef 23\<rparr>,
            arg_dbEntities =
              [\<lparr>ewi_id = JSNum 5, ewi_entityTarget = ''Post'', ewi_entity = JSRef 24\<rparr>],
            arg_allPersistedEntities =
              [\<lparr>ewi_id = JSNum 5, ewi_entityTarget = ''Post'', ewi_entity = JSRef 23\<rparr>]\<rparr>)"
proof -
  have l: "loadDbEntity exampleCollaborators exampleHeap postMetadata (JSRef 23)
           = ([Preload (JSRef 23)], Inr (JSRef 24))"
    by (simp add: loadDbEntity_def example_saved_hasId exampleCollaborators_def)
  have f: "findNotLoadedIds exampleCollaborators exampleHeap exampleMetadatas
             [\<lparr>ewi_id = JSNum 5, ewi_entityTarget = ''Post'', ewi_entity = JSRef 24\<rparr>]
             [\<lparr>ewi_id = JSNum 5, ewi_entityTarget = ''Post'', ewi_entity = JSRef 23\<rparr>]
           = ([], Inr [\<lparr>ewi_id = JSNum 5, ewi_entityTarget = ''Post'', ewi_entity = JSRef 24\<rparr>])"
    by (simp add: findNotLoadedIds_def notLoaded_def)
  have g: "getEntityId exampleCollaborators exampleHeap (JSRef 24) = JSNum 5"
    "getEntityId exampleCollaborators exampleHeap (JSRef 23) = JSNum 5"
    by (simp_all add: exampleCollaborators_def exampleHeap_def objGet_def)
  have t: "md_target postMetadata = ''Post''"
    by (simp add: postMetadata_def)
  show ?thesis
    unfolding persist_def example_saved_extract l
    by (simp add: example_loaded_extract f g t del: extractObjectsById.simps)
qed

text \<open>
  C6. An entity (one object, not an array) whose identifier property is not an own
  property, or is \<open>null\<close>, \<open>undefined\<close> or the empty string, has no id for \<open>hasId\<close>;
  \<open>persist\<close> then makes no \<open>preload\<close> call and hands \<open>null\<close> to the builder as the
  database entity. Whenever \<open>persist\<close> of one entity does call \<open>preload\<close>, \<open>hasId\<close> holds
  of the entity.
\<close>

theorem hasId_false_persist_skips_database_load:
  assumes unset: "own (h a) (col_propertyName (primaryColumn metadata))
             \<in> {None, Some JSNull, Some JSUndefined, Some (JSStr [])}"
    and single: "arrayElems h (JSRef a) = None"
  shows "\<not> hasId h metadata (JSRef a)
       \<and> loadDbEntity c h metadata (JSRef a) = ([], Inr JSNull)
       \<and> (persist fuel c h ms metadata (JSRef a) = Some (reads, outcome) \<longrightarrow>
            Preload x \<notin> set reads
            \<and> (outcome = Inr args \<longrightarrow> ewi_entity (arg_dbEntity args) = JSNull))
       \<and> (arrayElems h entity = None
            \<and> persist fuel c h ms metadata entity = Some (reads', outcome')
            \<and> Preload x' \<in> set reads' \<longrightarrow> hasId h metadata entity)"
proof -
  have n: "\<not> hasId h metadata (JSRef a)"
    using unset by (auto simp: hasId_def Let_def objGet_def)
  then have "loadDbEntity c h metadata (JSRef a) = ([], Inr JSNull)"
    by (simp add: loadDbEntity_def)
  with n show ?thesis
    using persist_without_id [OF n, of fuel c ms reads outcome x args]
      persist_preload_only_with_id [of fuel c h ms metadata entity reads' outcome' x']
    by simp
qed

theorem hasId_false_persist_skips_database_load_witness:
  "\<not> hasId exampleHeap postMetadata (JSRef 21)
   \<and> loadDbEntity exampleCollaborators exampleHeap postMetadata (JSRef 21) = ([], Inr JSNull)
   \<and> (\<exists>reads args.
         persist (Suc 0) exampleCollaborators exampleHeap exampleMetadatas postMetadata (JSRef 21)
           = Some (reads, Inr args)
         \<and> Preload (JSRef 21) \<notin> set reads \<and> ewi_entity (arg_dbEntity args) = JSNull)
   \<and> (\<exists>reads outcome.
         persist (Suc 0) exampleCollaborators exampleHeap exampleMetadatas postMetadata (JSRef 23)
           = Some (reads, outcome)
         \<and> Preload (JSRef 23) \<in> set reads \<and> hasId exampleHeap postMetadata (JSRef 23))"
proof -
  let ?draftArgs =
    "\<lparr>arg_dbEntity =
        \<lparr>ewi_id = JSUndefined, ewi_entityTarget = ''Post'', ewi_entity = JSNull\<rparr>,
      arg_persistedEntity =
        \<lparr>ewi_id = JSUndefined, ewi_entityTarget = ''Post'', ewi_entity = JSRef 21\<rparr>,
      arg_dbEntities = [],
      arg_allPersistedEntities =
        [\<lparr>ewi_id = JSUndefined, ewi_entityTarget = ''Post'', ewi_entity = JSRef 21\<rparr>]\<rparr>"
  let ?savedArgs =
    "\<lparr>arg_dbEntity =
        \<lparr>ewi_id = JSNum 5, ewi_entityTarget = ''Post'', ewi_entity = JSRef 24\<rparr>,
      arg_persistedEntity =
        \<lparr>ewi_id = JSNum 5, ewi_entityTarget = ''Post'', ewi_entity = JSRef 23\<rparr>,
      arg_dbEntities =
        [\<lparr>ewi_id = JSNum 5, ewi_entityTarget = ''Post'', ewi_entity = JSRef 24\<rparr>],
      arg_allPersistedEntities =
        [\<lparr>ewi_id = JSNum 5, ewi_entityTarget = ''Post'', ewi_entity = JSRef 23\<rparr>]\<rparr>"
  have u: "own (exampleHeap 21) (col_propertyName (primaryColumn postMetadata))
             \<in> {None, Some JSNull, Some JSUndefined, Some (JSStr [])}"
    by (simp add: exampleHeap_def postMetadata_def)
  have s: "arrayElems exampleHeap (JSRef 21) = None"
    by (simp add: exampleHeap_def)
  have s': "arrayElems exampleHeap (JSRef 23) = None"
    by (simp add: exampleHeap_def)
  have p: "Preload (JSRef 23) \<in> set [Preload (JSRef 23)]" by simp
  have t: "\<not> hasId exampleHeap postMetadata (JSRef 21)
       \<and> loadDbEntity exampleCollaborators exampleHeap postMetadata (JSRef 21) = ([], Inr JSNull)
       \<and> (persist (Suc 0) exampleCollaborators exampleHeap exampleMetadatas postMetadata
             (JSRef 21) = Some ([], Inr ?draftArgs) \<longrightarrow>
            Preload (JSRef 21) \<notin> set []
            \<and> (Inr ?draftArgs = (Inr ?draftArgs :: error + BuilderArguments) \<longrightarrow>
                 ewi_entity (arg_dbEntity ?draftArgs) = JSNull))
       \<and> (arrayElems exampleHeap (JSRef 23) = None
            \<and> persist (Suc 0) exampleCollaborators exampleHeap exampleMetadatas postMetadata
                 (JSRef 23) = Some ([Preload (JSRef 23)], Inr ?savedArgs)
            \<and> Preload (JSRef 23) \<in> set [Preload (JSRef 23)] \<longrightarrow>
            hasId exampleHeap postMetadata (JSRef 23))"
    by (rule hasId_false_persist_skips_database_load [OF u s])
  then have "hasId exampleHeap postMetadata (JSRef 23)"
    using s' example_saved_persist p by blast
  moreover have "ewi_entity (arg_dbEntity ?draftArgs) = JSNull"
    using t example_draft_persist by blast
  ultimately show ?thesis
    using t example_draft_persist example_saved_persist
    by (simp del: extractObjectsById.simps)
qed

text \<open>
  C10. \<open>hasId\<close> holds only of an object that has the primary column's property as an
  own property. An object (not an array) that sees a value for it only through its
  prototype chain reads that value, yet has no id for \<open>hasId\<close>, and \<open>persist\<close> takes it
  without \<open>preload\<close>, with \<open>null\<close> as the database entity.
\<close>

theorem hasId_needs_own_property:
  "(hasId h metadata entity \<longrightarrow>
      (\<exists>a v. entity = JSRef a
         \<and> own (h a) (col_propertyName (primaryColumn metadata)) = Some v))
   \<and> (own (h a) (col_propertyName (primaryColumn metadata)) = None
        \<and> inherited (h a) (col_propertyName (primaryColumn metadata)) = Some v
        \<and> arrayElems h (JSRef a) = None \<longrightarrow>
        getProp h (JSRef a) (col_propertyName (primaryColumn metadata)) = Inr v
        \<and> \<not> hasId h metadata (JSRef a)
        \<and> loadDbEntity c h metadata (JSRef a) = ([], Inr JSNull)
        \<and> (persist fuel c h ms metadata (JSRef a) = Some (reads, outcome) \<longrightarrow>
             Preload x \<notin> set reads
             \<and> (outcome = Inr args \<longrightarrow> ewi_entity (arg_dbEntity args) = JSNull)))"
proof -
  have own_needed: "hasId h metadata entity \<longrightarrow>
      (\<exists>a v. entity = JSRef a
         \<and> own (h a) (col_propertyName (primaryColumn metadata)) = Some v)"
    using hasId_own by blast
  have inherited_only:
    "own (h a) (col_propertyName (primaryColumn metadata)) = None
     \<and> inherited (h a) (col_propertyName (primaryColumn metadata)) = Some v
     \<and> arrayElems h (JSRef a) = None \<longrightarrow>
     getProp h (JSRef a) (col_propertyName (primaryColumn metadata)) = Inr v
     \<and> \<not> hasId h metadata (JSRef a)
     \<and> loadDbEntity c h metadata (JSRef a) = ([], Inr JSNull)
     \<and> (persist fuel c h ms metadata (JSRef a) = Some (reads, outcome) \<longrightarrow>
          Preload x \<notin> set reads
          \<and> (outcome = Inr args \<longrightarrow> ewi_entity (arg_dbEntity args) = JSNull))"
  proof (intro impI, elim conjE)
    assume o: "own (h a) (col_propertyName (primaryColumn metadata)) = None"
      and i: "inherited (h a) (col_propertyName (primaryColumn metadata)) = Some v"
    have g: "getProp h (JSRef a) (col_propertyName (primaryColumn metadata)) = Inr v"
      using o i by (simp add: objGet_def)
    have n: "\<not> hasId h metadata (JSRef a)"
      using o by (simp add: hasId_def Let_def)
    then have "loadDbEntity c h metadata (JSRef a) = ([], Inr JSNull)"
      by (simp add: loadDbEntity_def)
    with g n show "getProp h (JSRef a) (col_propertyName (primaryColumn metadata)) = Inr v
     \<and> \<not> hasId h metadata (JSRef a)
     \<and> loadDbEntity c h metadata (JSRef a) = ([], Inr JSNull)
     \<and> (persist fuel c h ms metadata (JSRef a) = Some (reads, outcome) \<longrightarrow>
          Preload x \<notin> set reads
          \<and> (outcome = Inr args \<longrightarrow> ewi_entity (arg_dbEntity args) = JSNull))"
      using persist_without_id [OF n, of fuel c ms reads outcome x args] by simp
  qed
  from own_needed inherited_only show ?thesis by (rule conjI)
qed

theorem hasId_needs_own_property_witness:
  "hasId exampleHeap postMetadata (JSRef 23)
   \<and> own (exampleHeap 23) ''id'' = Some (JSNum 5)
   \<and> own (exampleHeap 22) ''id'' = None \<and> inherited (exampleHeap 22) ''id'' = Some (JSNum 7)
   \<and> getProp exampleHeap (JSRef 22) ''id'' = Inr (JSNum 7)
   \<and> \<not> hasId exampleHeap postMetadata (JSRef 22)
   \<and> (\<exists>reads args.
         persist (Suc 0) exampleCollaborators exampleHeap exampleMetadatas postMetadata (JSRef 22)
           = Some (reads, Inr args)
         \<and> Preload (JSRef 22) \<notin> set reads \<and> ewi_entity (arg_dbEntity args) = JSNull)"
proof -
  have k: "col_propertyName (primaryColumn postMetadata) = ''id''"
    by (simp add: postMetadata_def)
  have o: "own (exampleHeap 22) ''id'' = None"
    "inherited (exampleHeap 22) ''id'' = Some (JSNum 7)"
    "own (exampleHeap 23) ''id'' = Some (JSNum 5)"
    "elems (exampleHeap 22) = None"
    by (simp_all add: exampleHeap_def)
  show ?thesis
    using hasId_needs_own_property
        [where h = exampleHeap and metadata = postMetadata and entity = "JSRef 23"
           and a = 22 and v = "JSNum 7" and c = exampleCollaborators and fuel = "Suc 0"
           and ms = exampleMetadatas and x = "JSRef 22"]
      example_saved_hasId example_inheriting_persist o
    by (simp add: k)
qed

subsection \<open>The side effect of \<open>remove\<close>\<close>

lemma setOwn_objGet: "objGet (setOwn h a p v a) p = v"
  by (simp add: setOwn_def objGet_def)

lemma example_remove:
  "remove (Suc 0) exampleCollaborators exampleHeap exampleMetadatas postMetadata (JSRef 23)
   = (setOwn exampleHeap 23 ''id'' JSUndefined,
      Some (Inr \<lparr>arg_dbEntity =
                   \<lparr>ewi_id = JSNum 5, ewi_entityTarget = ''Post'', ewi_entity = JSRef 24\<rparr>,
                 arg_persistedEntity =
                   \<lparr>ewi_id = JSUndefined, ewi_entityTarget = ''Post'', ewi_entity = JSRef 23\<rparr>,
                 arg_dbEntities =
                   [\<lparr>ewi_id = JSNum 5, ewi_entityTarget = ''Post'', ewi_entity = JSRef 24\<rparr>],
                 arg_allPersistedEntities =
                   [\<lparr>ewi_id = JSUndefined, ewi_entityTarget = ''Post'',
                     ewi_entity = JSRef 23\<rparr>]\<rparr>))"
  by (simp add: remove_def exampleCollaborators_def setOwn_def exampleHeap_def postMetadata_def
      categoriesRelation_def authorRelation_def relationSlot_def objGet_def)

lemma setOwn_frame:
  "own (setOwn h a p v a) p = Some v"
  "q \<noteq> p \<Longrightarrow> own (setOwn h a p v a) q = own (h a) q"
  "inherited (setOwn h a p v a) = inherited (h a)"
  "elems (setOwn h a p v a) = elems (h a)"
  "b \<noteq> a \<Longrightarrow> setOwn h a p v b = h b"
  by (simp_all add: setOwn_def)

text \<open>
  C9, as claimed: after a successful or even an attempted \<open>remove\<close> the passed-in object
  no longer carries its identity. When \<open>preload\<close> is rejected, the attempt ends before the
  assignment: \<open>remove\<close> of the post with id 5 is rejected with the storage error, the store
  is the caller's store unchanged, the post still reads 5 for \<open>id\<close> and still has an id for
  \<open>hasId\<close>.
\<close>

theorem remove_attempt_keeps_identity:
  "remove (Suc 0) unreachableStorage exampleHeap exampleMetadatas postMetadata (JSRef 23)
     = (exampleHeap, Some (Inl (StorageError ''connection lost'')))
   \<and> getProp
        (fst (remove (Suc 0) unreachableStorage exampleHeap exampleMetadatas postMetadata
               (JSRef 23)))
        (JSRef 23) ''id'' = Inr (JSNum 5)
   \<and> hasId
        (fst (remove (Suc 0) unreachableStorage exampleHeap exampleMetadatas postMetadata
               (JSRef 23)))
        postMetadata (JSRef 23)"
proof -
  have r: "remove (Suc 0) unreachableStorage exampleHeap exampleMetadatas postMetadata (JSRef 23)
           = (exampleHeap, Some (Inl (StorageError ''connection lost'')))"
    by (simp add: remove_def unreachableStorage_def)
  have g: "getProp exampleHeap (JSRef 23) ''id'' = Inr (JSNum 5)"
    by (simp add: exampleHeap_def objGet_def)
  show ?thesis
    unfolding r using g example_saved_hasId by simp
qed

text \<open>
  The assignment is made to the property named by the column's name. Under the metadata
  whose primary column is \<open>post_id\<close> in the table and \<open>id\<close> on the object, a \<open>remove\<close> that
  reaches the builder leaves the post with its \<open>id\<close> and with an id for \<open>hasId\<close>.
\<close>

lemma remove_other_property_name_keeps_identity:
  "hasId
     (fst (remove (Suc 0) exampleCollaborators exampleHeap exampleMetadatas legacyPostMetadata
            (JSRef 23)))
     legacyPostMetadata (JSRef 23)
   \<and> snd (remove (Suc 0) exampleCollaborators exampleHeap exampleMetadatas legacyPostMetadata
            (JSRef 23))
     = Some (Inr \<lparr>arg_dbEntity =
                    \<lparr>ewi_id = JSNum 5, ewi_entityTarget = ''Post'', ewi_entity = JSRef 24\<rparr>,
                  arg_persistedEntity =
                    \<lparr>ewi_id = JSNum 5, ewi_entityTarget = ''Post'', ewi_entity = JSRef 23\<rparr>,
                  arg_dbEntities =
                    [\<lparr>ewi_id = JSUndefined, ewi_entityTarget = ''Post'',
                      ewi_entity = JSRef 24\<rparr>],
                  arg_allPersistedEntities =
                    [\<lparr>ewi_id = JSUndefined, ewi_entityTarget = ''Post'',
                      ewi_entity = JSRef 23\<rparr>]\<rparr>)"
  by (simp add: remove_def exampleCollaborators_def setOwn_def exampleHeap_def
      legacyPostMetadata_def hasId_def objGet_def)

text \<open>
  C9, amended. \<open>remove\<close> of one entity (an object, not an array) changes the caller's
  object only once \<open>preload\<close> has answered. When \<open>preload\<close> is rejected, \<open>remove\<close> is rejected
  with the same error and the store is unchanged. When \<open>preload\<close> answers, \<open>remove\<close>
  assigns \<open>undefined\<close> to the property of the entity that is named by the primary
  column's name, before it collects the graphs for the removal plan, and the store it
  leaves, whatever happens afterwards, differs from the caller's in that own property
  alone: the entity's other own properties, its inherited properties and its elements,
  and every other object are as before. The entity then reads \<open>undefined\<close> there, it has
  no id for \<open>hasId\<close> when the column's property name is its name, and the persisted
  entities handed to the builder are collected from the store after the assignment.
\<close>

theorem remove_sets_primary_column_undefined:
  assumes "arrayElems h (JSRef a) = None"
  shows "(preload c (JSRef a) = Inl e \<longrightarrow>
            remove fuel c h ms metadata (JSRef a) = (h, Some (Inl e)))
       \<and> (preload c (JSRef a) = Inr dbEntity \<longrightarrow>
            fst (remove fuel c h ms metadata (JSRef a))
              = setOwn h a (col_name (primaryColumn metadata)) JSUndefined
            \<and> own (fst (remove fuel c h ms metadata (JSRef a)) a)
                  (col_name (primaryColumn metadata)) = Some JSUndefined
            \<and> getProp (fst (remove fuel c h ms metadata (JSRef a))) (JSRef a)
                  (col_name (primaryColumn metadata)) = Inr JSUndefined
            \<and> (q \<noteq> col_name (primaryColumn metadata) \<longrightarrow>
                 own (fst (remove fuel c h ms metadata (JSRef a)) a) q = own (h a) q)
            \<and> inherited (fst (remove fuel c h ms metadata (JSRef a)) a) = inherited (h a)
            \<and> elems (fst (remove fuel c h ms metadata (JSRef a)) a) = elems (h a)
            \<and> (b \<noteq> a \<longrightarrow> fst (remove fuel c h ms metadata (JSRef a)) b = h b)
            \<and> (col_propertyName (primaryColumn metadata) = col_name (primaryColumn metadata)
                 \<longrightarrow> \<not> hasId (fst (remove fuel c h ms metadata (JSRef a))) metadata (JSRef a))
            \<and> (snd (remove fuel c h ms metadata (JSRef a)) = Some (Inr args) \<longrightarrow>
                 extractObjectsById fuel
                   (setOwn h a (col_name (primaryColumn metadata)) JSUndefined)
                   ms (JSRef a) metadata [] = Some (Inr (arg_allPersistedEntities args))))"
proof (intro conjI impI)
  assume "preload c (JSRef a) = Inl e"
  then show "remove fuel c h ms metadata (JSRef a) = (h, Some (Inl e))"
    by (simp add: remove_def)
next
  assume p: "preload c (JSRef a) = Inr dbEntity"
  then show store: "fst (remove fuel c h ms metadata (JSRef a))
               = setOwn h a (col_name (primaryColumn metadata)) JSUndefined"
    by (simp add: remove_def)
  show "own (fst (remove fuel c h ms metadata (JSRef a)) a)
          (col_name (primaryColumn metadata)) = Some JSUndefined"
    unfolding store by (rule setOwn_frame(1))
  show "getProp (fst (remove fuel c h ms metadata (JSRef a))) (JSRef a)
          (col_name (primaryColumn metadata)) = Inr JSUndefined"
    unfolding store by (simp add: setOwn_objGet)
  show "inherited (fst (remove fuel c h ms metadata (JSRef a)) a) = inherited (h a)"
    unfolding store by (rule setOwn_frame(3))
  show "elems (fst (remove fuel c h ms metadata (JSRef a)) a) = elems (h a)"
    unfolding store by (rule setOwn_frame(4))
  show "own (fst (remove fuel c h ms metadata (JSRef a)) a) q = own (h a) q"
    if "q \<noteq> col_name (primaryColumn metadata)"
    unfolding store using that by (rule setOwn_frame(2))
  show "fst (remove fuel c h ms metadata (JSRef a)) b = h b" if "b \<noteq> a"
    unfolding store using that by (rule setOwn_frame(5))
  show "\<not> hasId (fst (remove fuel c h ms metadata (JSRef a))) metadata (JSRef a)"
    if "col_propertyName (primaryColumn metadata) = col_name (primaryColumn metadata)"
    unfolding store using that by (simp add: hasId_def Let_def setOwn_def objGet_def)
  show "extractObjectsById fuel (setOwn h a (col_name (primaryColumn metadata)) JSUndefined)
          ms (JSRef a) metadata [] = Some (Inr (arg_allPersistedEntities args))"
    if "snd (remove fuel c h ms metadata (JSRef a)) = Some (Inr args)"
    using that p by (auto simp: remove_def split: option.splits sum.splits)
qed

theorem remove_sets_primary_column_undefined_witness:
  "arrayElems exampleHeap (JSRef 23) = None
   \<and> preload unreachableStorage (JSRef 23) = Inl (StorageError ''connection lost'')
   \<and> remove (Suc 0) unreachableStorage exampleHeap exampleMetadatas postMetadata (JSRef 23)
       = (exampleHeap, Some (Inl (StorageError ''connection lost'')))
   \<and> preload exampleCollaborators (JSRef 23) = Inr (JSRef 24)
   \<and> hasId exampleHeap postMetadata (JSRef 23)
   \<and> getProp
        (fst (remove (Suc 0) exampleCollaborators exampleHeap exampleMetadatas postMetadata
               (JSRef 23)))
        (JSRef 23) ''id'' = Inr JSUndefined
   \<and> \<not> hasId
        (fst (remove (Suc 0) exampleCollaborators exampleHeap exampleMetadatas postMetadata
               (JSRef 23)))
        postMetadata (JSRef 23)
   \<and> fst (remove (Suc 0) exampleCollaborators exampleHeap exampleMetadatas postMetadata
            (JSRef 23)) 24
       = exampleHeap 24
   \<and> extractObjectsById (Suc 0) (setOwn exampleHeap 23 ''id'' JSUndefined) exampleMetadatas
        (JSRef 23) postMetadata []
       = Some (Inr [\<lparr>ewi_id = JSUndefined, ewi_entityTarget = ''Post'', ewi_entity = JSRef 23\<rparr>])"
proof -
  let ?args =
    "\<lparr>arg_dbEntity =
        \<lparr>ewi_id = JSNum 5, ewi_entityTarget = ''Post'', ewi_entity = JSRef 24\<rparr>,
      arg_persistedEntity =
        \<lparr>ewi_id = JSUndefined, ewi_entityTarget = ''Post'', ewi_entity = JSRef 23\<rparr>,
      arg_dbEntities =
        [\<lparr>ewi_id = JSNum 5, ewi_entityTarget = ''Post'', ewi_entity = JSRef 24\<rparr>],
      arg_allPersistedEntities =
        [\<lparr>ewi_id = JSUndefined, ewi_entityTarget = ''Post'', ewi_entity = JSRef 23\<rparr>]\<rparr>"
  have s: "arrayElems exampleHeap (JSRef 23) = None"
    by (simp add: exampleHeap_def)
  have u: "preload unreachableStorage (JSRef 23) = Inl (StorageError ''connection lost'')"
    by (simp add: unreachableStorage_def)
  have p: "preload exampleCollaborators (JSRef 23) = Inr (JSRef 24)"
    by (simp add: exampleCollaborators_def)
  have k: "col_name (primaryColumn postMetadata) = ''id''"
    "col_propertyName (primaryColumn postMetadata) = ''id''"
    by (simp_all add: postMetadata_def)
  have n: "(24::nat) \<noteq> 23" by simp
  have rejected:
    "remove (Suc 0) unreachableStorage exampleHeap exampleMetadatas postMetadata (JSRef 23)
       = (exampleHeap, Some (Inl (StorageError ''connection lost'')))"
    using remove_sets_primary_column_undefined
        [OF s, where c = unreachableStorage and e = "StorageError ''connection lost''"
           and fuel = "Suc 0" and ms = exampleMetadatas and metadata = postMetadata]
      u
    by blast
  have answered:
    "getProp
        (fst (remove (Suc 0) exampleCollaborators exampleHeap exampleMetadatas postMetadata
               (JSRef 23)))
        (JSRef 23) ''id'' = Inr JSUndefined
     \<and> \<not> hasId
        (fst (remove (Suc 0) exampleCollaborators exampleHeap exampleMetadatas postMetadata
               (JSRef 23)))
        postMetadata (JSRef 23)
     \<and> fst (remove (Suc 0) exampleCollaborators exampleHeap exampleMetadatas postMetadata
            (JSRef 23)) 24
       = exampleHeap 24
     \<and> extractObjectsById (Suc 0) (setOwn exampleHeap 23 ''id'' JSUndefined) exampleMetadatas
        (JSRef 23) postMetadata []
       = Some (Inr (arg_allPersistedEntities ?args))"
    using remove_sets_primary_column_undefined
        [OF s, where c = exampleCollaborators and dbEntity = "JSRef 24"
           and fuel = "Suc 0" and ms = exampleMetadatas and metadata = postMetadata
           and b = 24 and args = ?args]
      p n example_remove
    unfolding k by (simp del: extractObjectsById.simps getProp.simps)
  show ?thesis
    using s u p rejected answered example_saved_hasId
    by (simp del: extractObjectsById.simps getProp.simps arrayElems.simps)
qed

subsection \<open>Loading the database entities that were not loaded\<close>

lemma promiseAll_map_Inr: "promiseAll (map Inr xs) = Inr xs"
  by (induction xs) auto

lemma promiseAll_Inr: "promiseAll ps = Inr xs \<Longrightarrow> ps = map Inr xs"
  by (induction ps arbitrary: xs) (auto split: sum.splits)

lemma set_defined: "set (defined xs) = {x. Some x \<in> set xs}"
  by (induction xs rule: defined.induct) auto

lemma getProp_truthy: "truthy v \<Longrightarrow> \<exists>x. getProp h v p = Inr x"
  by (cases v) auto

lemma notLoaded_iff:
  "e \<in> set (notLoaded dbEntities persistedEntities) \<longleftrightarrow>
     e \<in> set persistedEntities \<and> ewi_id e \<noteq> JSNull \<and> ewi_id e \<noteq> JSUndefined
     \<and> \<not> (\<exists>dbEntity \<in> set dbEntities.
             ewi_entityTarget dbEntity = ewi_entityTarget e \<and> ewi_id dbEntity = ewi_id e)"
  by (auto simp: notLoaded_def find_None_iff)

lemma loadMissing_found:
  assumes "findOneById c (ewi_entityTarget e) (ewi_id e) = Inr loaded" and "truthy loaded"
  shows "\<exists>v. getProp h loaded (col_name (primaryColumn (ms (ewi_entityTarget e)))) = Inr v
           \<and> loadMissing c h ms e
               = Inr (Some \<lparr>ewi_id = v, ewi_entityTarget = md_target (ms (ewi_entityTarget e)),
                            ewi_entity = loaded\<rparr>)"
  using assms getProp_truthy [OF assms(2), of h "col_name (primaryColumn (ms (ewi_entityTarget e)))"]
  by (auto simp: loadMissing_def Let_def)

lemma loadMissing_Some:
  assumes "loadMissing c h ms e = Inr (Some x)"
  shows "findOneById c (ewi_entityTarget e) (ewi_id e) = Inr (ewi_entity x)
         \<and> truthy (ewi_entity x)
         \<and> ewi_entityTarget x = md_target (ms (ewi_entityTarget e))
         \<and> getProp h (ewi_entity x) (col_name (primaryColumn (ms (ewi_entityTarget e))))
             = Inr (ewi_id x)"
  using assms
  by (auto simp: loadMissing_def Let_def split: sum.splits if_splits)

lemma loadMissing_resolves:
  assumes "findOneById c (ewi_entityTarget e) (ewi_id e) = Inr loaded"
  shows "\<exists>r. loadMissing c h ms e = Inr r"
proof (cases "truthy loaded")
  case True
  then show ?thesis
    using loadMissing_found [OF assms True, of h ms] by blast
next
  case False
  then show ?thesis
    using assms by (simp add: loadMissing_def Let_def)
qed

lemma promiseAll_resolves:
  "(\<And>p. p \<in> set ps \<Longrightarrow> \<exists>x. p = Inr x) \<Longrightarrow> \<exists>xs. promiseAll ps = Inr xs"
proof (induction ps)
  case Nil
  show ?case by simp
next
  case (Cons p ps)
  obtain x where "p = Inr x"
    using Cons.prems [of p] by auto
  moreover obtain xs where "promiseAll ps = Inr xs"
    using Cons.IH Cons.prems by auto
  ultimately show ?case by simp
qed

lemma findNotLoadedIds_lookups:
  "fst (findNotLoadedIds c h ms dbEntities persistedEntities)
   = map (\<lambda>e. FindOneById (ewi_entityTarget e) (ewi_id e)) (notLoaded dbEntities persistedEntities)"
  by (simp add: findNotLoadedIds_def Let_def)

lemma findNotLoadedIds_Inr:
  assumes "snd (findNotLoadedIds c h ms dbEntities persistedEntities) = Inr allDbEntities"
  shows "\<exists>rs. map (loadMissing c h ms) (notLoaded dbEntities persistedEntities) = map Inr rs
              \<and> allDbEntities = dbEntities @ defined rs"
  using assms promiseAll_Inr
  by (fastforce simp: findNotLoadedIds_def Let_def split: sum.splits)

lemma findNotLoadedIds_adds_found:
  assumes out: "snd (findNotLoadedIds c h ms dbEntities persistedEntities) = Inr allDbEntities"
    and e: "e \<in> set (notLoaded dbEntities persistedEntities)"
    and found: "findOneById c (ewi_entityTarget e) (ewi_id e) = Inr loaded" "truthy loaded"
  shows "\<exists>x \<in> set allDbEntities.
           ewi_entity x = loaded \<and> ewi_entityTarget x = md_target (ms (ewi_entityTarget e))
           \<and> getProp h loaded (col_name (primaryColumn (ms (ewi_entityTarget e)))) = Inr (ewi_id x)"
proof -
  obtain rs where rs: "map (loadMissing c h ms) (notLoaded dbEntities persistedEntities) = map Inr rs"
    and all: "allDbEntities = dbEntities @ defined rs"
    using findNotLoadedIds_Inr [OF out] by blast
  obtain v where v: "getProp h loaded (col_name (primaryColumn (ms (ewi_entityTarget e)))) = Inr v"
    and l: "loadMissing c h ms e
            = Inr (Some \<lparr>ewi_id = v, ewi_entityTarget = md_target (ms (ewi_entityTarget e)),
                         ewi_entity = loaded\<rparr>)"
    using loadMissing_found [OF found, of h ms] by blast
  have "loadMissing c h ms e \<in> set (map (loadMissing c h ms) (notLoaded dbEntities persistedEntities))"
    using e by simp
  then have "Some \<lparr>ewi_id = v, ewi_entityTarget = md_target (ms (ewi_entityTarget e)),
                   ewi_entity = loaded\<rparr> \<in> set rs"
    unfolding rs l by auto
  then have "\<lparr>ewi_id = v, ewi_entityTarget = md_target (ms (ewi_entityTarget e)),
              ewi_entity = loaded\<rparr> \<in> set allDbEntities"
    by (simp add: all set_defined)
  then show ?thesis
    using v by force
qed

lemma findNotLoadedIds_only_found:
  assumes out: "snd (findNotLoadedIds c h ms dbEntities persistedEntities) = Inr allDbEntities"
    and x: "x \<in> set allDbEntities" "x \<notin> set dbEntities"
  shows "\<exists>e \<in> set (notLoaded dbEntities persistedEntities).
           findOneById c (ewi_entityTarget e) (ewi_id e) = Inr (ewi_entity x)
           \<and> truthy (ewi_entity x)"
proof -
  obtain rs where rs: "map (loadMissing c h ms) (notLoaded dbEntities persistedEntities) = map Inr rs"
    and all: "allDbEntities = dbEntities @ defined rs"
    using findNotLoadedIds_Inr [OF out] by blast
  have "Some x \<in> set rs"
    using x by (simp add: all set_defined)
  then have "Inr (Some x) \<in> set (map (loadMissing c h ms) (notLoaded dbEntities persistedEntities))"
    unfolding rs by simp
  then obtain e where e: "e \<in> set (notLoaded dbEntities persistedEntities)"
    and l: "loadMissing c h ms e = Inr (Some x)"
    by auto
  show ?thesis
    using e loadMissing_Some [OF l] by blast
qed

text \<open>
  C7. Let \<open>findNotLoadedIds\<close> make the lookups \<open>lookups\<close> and settle as \<open>outcome\<close>. Every
  persisted entity whose id is neither \<open>null\<close> nor \<open>undefined\<close> and for which no database
  entity has the same target and id is looked up by that id; the lookups are all point
  lookups of such entities. When the lookups all answer, the result is \<open>Inr\<close>; it starts
  with the database entities it was given, it holds an entry for every entity a lookup
  found, and every further entry holds an entity that a lookup found: a lookup that
  finds nothing adds no entry.
\<close>

theorem findNotLoadedIds_loads_missing:
  assumes "findNotLoadedIds c h ms dbEntities persistedEntities = (lookups, outcome)"
  shows "(\<forall>e \<in> set persistedEntities.
            ewi_id e \<noteq> JSNull \<and> ewi_id e \<noteq> JSUndefined
            \<and> \<not> (\<exists>dbEntity \<in> set dbEntities.
                    ewi_entityTarget dbEntity = ewi_entityTarget e \<and> ewi_id dbEntity = ewi_id e)
            \<longrightarrow> FindOneById (ewi_entityTarget e) (ewi_id e) \<in> set lookups
              \<and> (\<forall>allDbEntities loaded.
                    outcome = Inr allDbEntities
                    \<and> findOneById c (ewi_entityTarget e) (ewi_id e) = Inr loaded \<and> truthy loaded
                    \<longrightarrow> (\<exists>x \<in> set allDbEntities.
                           ewi_entity x = loaded
                           \<and> ewi_entityTarget x = md_target (ms (ewi_entityTarget e))
                           \<and> getProp h loaded (col_name (primaryColumn (ms (ewi_entityTarget e))))
                               = Inr (ewi_id x))))
       \<and> (\<forall>read \<in> set lookups.
            \<exists>e \<in> set persistedEntities.
              read = FindOneById (ewi_entityTarget e) (ewi_id e)
              \<and> ewi_id e \<noteq> JSNull \<and> ewi_id e \<noteq> JSUndefined
              \<and> \<not> (\<exists>dbEntity \<in> set dbEntities.
                      ewi_entityTarget dbEntity = ewi_entityTarget e \<and> ewi_id dbEntity = ewi_id e))
       \<and> (\<forall>allDbEntities. outcome = Inr allDbEntities \<longrightarrow>
            prefix dbEntities allDbEntities
            \<and> (\<forall>x \<in> set allDbEntities.
                  x \<in> set dbEntities
                  \<or> (\<exists>e \<in> set persistedEntities.
                        FindOneById (ewi_entityTarget e) (ewi_id e) \<in> set lookups
                        \<and> findOneById c (ewi_entityTarget e) (ewi_id e) = Inr (ewi_entity x)
                        \<and> truthy (ewi_entity x))))
       \<and> ((\<forall>e \<in> set persistedEntities. \<exists>loaded.
              findOneById c (ewi_entityTarget e) (ewi_id e) = Inr loaded)
            \<longrightarrow> (\<exists>allDbEntities. outcome = Inr allDbEntities))"
proof -
  let ?missing = "notLoaded dbEntities persistedEntities"
  have lookups: "lookups = map (\<lambda>e. FindOneById (ewi_entityTarget e) (ewi_id e)) ?missing"
    using assms findNotLoadedIds_lookups [of c h ms dbEntities persistedEntities] by simp
  have outcome: "snd (findNotLoadedIds c h ms dbEntities persistedEntities) = outcome"
    using assms by simp
  have issued: "\<forall>e \<in> set persistedEntities.
            ewi_id e \<noteq> JSNull \<and> ewi_id e \<noteq> JSUndefined
            \<and> \<not> (\<exists>dbEntity \<in> set dbEntities.
                    ewi_entityTarget dbEntity = ewi_entityTarget e \<and> ewi_id dbEntity = ewi_id e)
            \<longrightarrow> FindOneById (ewi_entityTarget e) (ewi_id e) \<in> set lookups
              \<and> (\<forall>allDbEntities loaded.
                    outcome = Inr allDbEntities
                    \<and> findOneById c (ewi_entityTarget e) (ewi_id e) = Inr loaded \<and> truthy loaded
                    \<longrightarrow> (\<exists>x \<in> set allDbEntities.
                           ewi_entity x = loaded
                           \<and> ewi_entityTarget x = md_target (ms (ewi_entityTarget e))
                           \<and> getProp h loaded (col_name (primaryColumn (ms (ewi_entityTarget e))))
                               = Inr (ewi_id x)))"
  proof (intro ballI impI)
    fix e
    assume "e \<in> set persistedEntities"
      and "ewi_id e \<noteq> JSNull \<and> ewi_id e \<noteq> JSUndefined
            \<and> \<not> (\<exists>dbEntity \<in> set dbEntities.
                    ewi_entityTarget dbEntity = ewi_entityTarget e \<and> ewi_id dbEntity = ewi_id e)"
    then have m: "e \<in> set ?missing"
      by (simp add: notLoaded_iff)
    then have "FindOneById (ewi_entityTarget e) (ewi_id e) \<in> set lookups"
      unfolding lookups by simp
    moreover have "\<forall>allDbEntities loaded.
                    outcome = Inr allDbEntities
                    \<and> findOneById c (ewi_entityTarget e) (ewi_id e) = Inr loaded \<and> truthy loaded
                    \<longrightarrow> (\<exists>x \<in> set allDbEntities.
                           ewi_entity x = loaded
                           \<and> ewi_entityTarget x = md_target (ms (ewi_entityTarget e))
                           \<and> getProp h loaded (col_name (primaryColumn (ms (ewi_entityTarget e))))
                               = Inr (ewi_id x))"
      using findNotLoadedIds_adds_found [OF _ m, of c h ms] outcome by blast
    ultimately show "FindOneById (ewi_entityTarget e) (ewi_id e) \<in> set lookups
              \<and> (\<forall>allDbEntities loaded.
                    outcome = Inr allDbEntities
                    \<and> findOneById c (ewi_entityTarget e) (ewi_id e) = Inr loaded \<and> truthy loaded
                    \<longrightarrow> (\<exists>x \<in> set allDbEntities.
                           ewi_entity x = loaded
                           \<and> ewi_entityTarget x = md_target (ms (ewi_entityTarget e))
                           \<and> getProp h loaded (col_name (primaryColumn (ms (ewi_entityTarget e))))
                               = Inr (ewi_id x)))"
      by (rule conjI)
  qed
  have only: "\<forall>read \<in> set lookups.
            \<exists>e \<in> set persistedEntities.
              read = FindOneById (ewi_entityTarget e) (ewi_id e)
              \<and> ewi_id e \<noteq> JSNull \<and> ewi_id e \<noteq> JSUndefined
              \<and> \<not> (\<exists>dbEntity \<in> set dbEntities.
                      ewi_entityTarget dbEntity = ewi_entityTarget e \<and> ewi_id dbEntity = ewi_id e)"
    unfolding lookups using notLoaded_iff [of _ dbEntities persistedEntities] by auto
  have kept: "\<forall>allDbEntities. outcome = Inr allDbEntities \<longrightarrow>
            prefix dbEntities allDbEntities
            \<and> (\<forall>x \<in> set allDbEntities.
                  x \<in> set dbEntities
                  \<or> (\<exists>e \<in> set persistedEntities.
                        FindOneById (ewi_entityTarget e) (ewi_id e) \<in> set lookups
                        \<and> findOneById c (ewi_entityTarget e) (ewi_id e) = Inr (ewi_entity x)
                        \<and> truthy (ewi_entity x)))"
  proof (intro allI impI conjI ballI)
    fix allDbEntities
    assume o: "outcome = Inr allDbEntities"
    then have s: "snd (findNotLoadedIds c h ms dbEntities persistedEntities) = Inr allDbEntities"
      using outcome by simp
    show "prefix dbEntities allDbEntities"
      using findNotLoadedIds_Inr [OF s] by auto
    fix x
    assume x: "x \<in> set allDbEntities"
    show "x \<in> set dbEntities
          \<or> (\<exists>e \<in> set persistedEntities.
                FindOneById (ewi_entityTarget e) (ewi_id e) \<in> set lookups
                \<and> findOneById c (ewi_entityTarget e) (ewi_id e) = Inr (ewi_entity x)
                \<and> truthy (ewi_entity x))"
    proof (cases "x \<in> set dbEntities")
      case True
      then show ?thesis by simp
    next
      case False
      obtain e where e: "e \<in> set ?missing"
        and f: "findOneById c (ewi_entityTarget e) (ewi_id e) = Inr (ewi_entity x)"
          "truthy (ewi_entity x)"
        using findNotLoadedIds_only_found [OF s x False] by blast
      have "e \<in> set persistedEntities"
        using e by (simp add: notLoaded_iff)
      moreover have "FindOneById (ewi_entityTarget e) (ewi_id e) \<in> set lookups"
        unfolding lookups using e by simp
      ultimately show ?thesis
        using f by blast
    qed
  qed
  have answers: "(\<forall>e \<in> set persistedEntities. \<exists>loaded.
              findOneById c (ewi_entityTarget e) (ewi_id e) = Inr loaded)
            \<longrightarrow> (\<exists>allDbEntities. outcome = Inr allDbEntities)"
  proof
    assume a: "\<forall>e \<in> set persistedEntities. \<exists>loaded.
              findOneById c (ewi_entityTarget e) (ewi_id e) = Inr loaded"
    have "\<exists>x. p = Inr x" if mem: "p \<in> set (map (loadMissing c h ms) ?missing)" for p
    proof -
      obtain e where "e \<in> set ?missing" and p: "p = loadMissing c h ms e"
        using mem by auto
      then have "e \<in> set persistedEntities"
        by (simp add: notLoaded_iff)
      then obtain loaded where "findOneById c (ewi_entityTarget e) (ewi_id e) = Inr loaded"
        using a by blast
      then show ?thesis
        unfolding p by (rule loadMissing_resolves)
    qed
    then obtain rs where "promiseAll (map (loadMissing c h ms) ?missing) = Inr rs"
      using promiseAll_resolves by blast
    then show "\<exists>allDbEntities. outcome = Inr allDbEntities"
      using assms by (auto simp: findNotLoadedIds_def Let_def)
  qed
  from issued only kept answers show ?thesis by (intro conjI)
qed

theorem findNotLoadedIds_loads_missing_witness:
  "findNotLoadedIds exampleCollaborators exampleHeap exampleMetadatas
     [\<lparr>ewi_id = JSNum 5, ewi_entityTarget = ''Post'', ewi_entity = JSRef 24\<rparr>]
     [\<lparr>ewi_id = JSNum 5, ewi_entityTarget = ''Post'', ewi_entity = JSRef 23\<rparr>,
      \<lparr>ewi_id = JSNum 1, ewi_entityTarget = ''Category'', ewi_entity = JSRef 12\<rparr>,
      \<lparr>ewi_id = JSNum 7, ewi_entityTarget = ''Post'', ewi_entity = JSRef 22\<rparr>,
      \<lparr>ewi_id = JSUndefined, ewi_entityTarget = ''Post'', ewi_entity = JSRef 21\<rparr>]
   = ([FindOneById ''Category'' (JSNum 1), FindOneById ''Post'' (JSNum 7)],
      Inr [\<lparr>ewi_id = JSNum 5, ewi_entityTarget = ''Post'', ewi_entity = JSRef 24\<rparr>,
           \<lparr>ewi_id = JSNum 1, ewi_entityTarget = ''Category'', ewi_entity = JSRef 13\<rparr>])
   \<and> prefix [\<lparr>ewi_id = JSNum 5, ewi_entityTarget = ''Post'', ewi_entity = JSRef 24\<rparr>]
        [\<lparr>ewi_id = JSNum 5, ewi_entityTarget = ''Post'', ewi_entity = JSRef 24\<rparr>,
         \<lparr>ewi_id = JSNum 1, ewi_entityTarget = ''Category'', ewi_entity = JSRef 13\<rparr>]"
proof -
  have eq: "findNotLoadedIds exampleCollaborators exampleHeap exampleMetadatas
     [\<lparr>ewi_id = JSNum 5, ewi_entityTarget = ''Post'', ewi_entity = JSRef 24\<rparr>]
     [\<lparr>ewi_id = JSNum 5, ewi_entityTarget = ''Post'', ewi_entity = JSRef 23\<rparr>,
      \<lparr>ewi_id = JSNum 1, ewi_entityTarget = ''Category'', ewi_entity = JSRef 12\<rparr>,
      \<lparr>ewi_id = JSNum 7, ewi_entityTarget = ''Post'', ewi_entity = JSRef 22\<rparr>,
      \<lparr>ewi_id = JSUndefined, ewi_entityTarget = ''Post'', ewi_entity = JSRef 21\<rparr>]
   = ([FindOneById ''Category'' (JSNum 1), FindOneById ''Post'' (JSNum 7)],
      Inr [\<lparr>ewi_id = JSNum 5, ewi_entityTarget = ''Post'', ewi_entity = JSRef 24\<rparr>,
           \<lparr>ewi_id = JSNum 1, ewi_entityTarget = ''Category'', ewi_entity = JSRef 13\<rparr>])"
    by (simp add: findNotLoadedIds_def notLoaded_def loadMissing_def exampleCollaborators_def
        exampleMetadatas_def categoryMetadata_def exampleHeap_def objGet_def)
  have "prefix [\<lparr>ewi_id = JSNum 5, ewi_entityTarget = ''Post'', ewi_entity = JSRef 24\<rparr>]
        [\<lparr>ewi_id = JSNum 5, ewi_entityTarget = ''Post'', ewi_entity = JSRef 24\<rparr>,
         \<lparr>ewi_id = JSNum 1, ewi_entityTarget = ''Category'', ewi_entity = JSRef 13\<rparr>]"
    using findNotLoadedIds_loads_missing [OF eq] by blast
  with eq show ?thesis by (rule conjI)
qed

subsection \<open>What graph collection returns\<close>

lemma collected_refl: "collected found found {}"
  by (simp add: collected_def)

lemma collected_trans:
  assumes "collected a b r" and "collected b c s"
  shows "collected a c (r \<union> s)"
proof -
  have ab: "prefix a b" and bc: "prefix b c"
    using assms by (simp_all add: collected_def)
  have p: "prefix a c"
    using ab bc by (rule prefix_order.order_trans)
  have d: "distinct (map ewi_entity a) \<longrightarrow> distinct (map ewi_entity c)"
    using assms by (simp add: collected_def)
  have "ewi_entity ` set b = ewi_entity ` set a \<union> r"
    and "ewi_entity ` set c = ewi_entity ` set b \<union> s"
    using assms by (simp_all add: collected_def)
  then have "ewi_entity ` set c = ewi_entity ` set a \<union> (r \<union> s)"
    by (simp add: Un_assoc)
  with p d show ?thesis
    by (simp add: collected_def)
qed

lemma collected_push:
  assumes "collected a b r"
    and "find (\<lambda>entityWithId. ewi_entity entityWithId = e) b = None"
  shows "collected a (b @ [\<lparr>ewi_id = v, ewi_entityTarget = t, ewi_entity = e\<rparr>]) (insert e r)"
proof -
  have "e \<notin> ewi_entity ` set b"
    using assms(2) by (auto simp: find_None_iff)
  then show ?thesis
    using assms(1) unfolding collected_def by (auto simp: prefix_def)
qed

lemma collected_present:
  assumes "collected a b r"
    and "find (\<lambda>entityWithId. ewi_entity entityWithId = e) b \<noteq> None"
  shows "collected a b (insert e r)"
proof -
  have "e \<in> ewi_entity ` set b"
    using assms(2) by (auto simp: find_None_iff)
  then show ?thesis
    using assms(1) unfolding collected_def by auto
qed

lemma walkStep_children:
  "walkStep h ms (e, md) c \<longleftrightarrow> c \<in> children h ms e (relations md)"
  by (simp add: walkStep_def)

lemma reachable_unfold:
  "reachable h ms (e, md) = insert e (\<Union>c \<in> children h ms e (relations md). reachable h ms c)"
proof (intro set_eqI iffI)
  fix x
  assume "x \<in> reachable h ms (e, md)"
  then obtain c where c: "(walkStep h ms)\<^sup>*\<^sup>* (e, md) c" and x: "x = fst c"
    by (auto simp: reachable_def)
  from c show "x \<in> insert e (\<Union>c \<in> children h ms e (relations md). reachable h ms c)"
  proof (cases rule: converse_rtranclpE)
    case base
    then show ?thesis using x by auto
  next
    case (step y)
    then have "y \<in> children h ms e (relations md)" and "x \<in> reachable h ms y"
      using x by (auto simp: walkStep_children reachable_def)
    then show ?thesis by blast
  qed
next
  fix x
  assume "x \<in> insert e (\<Union>c \<in> children h ms e (relations md). reachable h ms c)"
  then consider "x = e"
    | y where "y \<in> children h ms e (relations md)" and "x \<in> reachable h ms y"
    by blast
  then show "x \<in> reachable h ms (e, md)"
  proof cases
    case 1
    have "(walkStep h ms)\<^sup>*\<^sup>* (e, md) (e, md)" by simp
    then show ?thesis
      unfolding reachable_def 1 by force
  next
    case 2
    then obtain c where "(walkStep h ms)\<^sup>*\<^sup>* y c" and "x = fst c"
      by (auto simp: reachable_def)
    moreover have "walkStep h ms (e, md) y"
      using 2 by (simp add: walkStep_children)
    ultimately have "(walkStep h ms)\<^sup>*\<^sup>* (e, md) c"
      by (simp add: converse_rtranclp_into_rtranclp)
    then show ?thesis
      unfolding reachable_def using \<open>x = fst c\<close> by blast
  qed
qed

lemma extract_collected:
  "\<forall>found. extractObjectsById n h ms entity metadata entityWithIds = Some (Inr found)
      \<longrightarrow> collected entityWithIds found (reachable h ms (entity, metadata))"
  "\<forall>found. extractRelations n h ms entity rels entityWithIds = Some (Inr found)
      \<longrightarrow> collected entityWithIds found (\<Union>c \<in> children h ms entity rels. reachable h ms c)"
  "\<forall>found. extractSubEntities n h ms subEntities relMetadata entityWithIds = Some (Inr found)
      \<longrightarrow> collected entityWithIds found (\<Union>s \<in> set subEntities. reachable h ms (s, relMetadata))"
proof (induction n h ms entity metadata entityWithIds
    and n h ms entity rels entityWithIds
    and n h ms subEntities relMetadata entityWithIds
    rule: extractObjectsById_extractRelations_extractSubEntities.induct)
  case (1 h ms entity metadata entityWithIds)
  show ?case by simp
next
  case (2 n h ms entity metadata entityWithIds)
  show ?case
  proof (intro allI impI)
    fix found
    assume run: "extractObjectsById (Suc n) h ms entity metadata entityWithIds = Some (Inr found)"
    then obtain below where below:
      "extractRelations n h ms entity (relations metadata) entityWithIds = Some (Inr below)"
      by (auto split: option.splits sum.splits)
    then have c: "collected entityWithIds below
                    (\<Union>c \<in> children h ms entity (relations metadata). reachable h ms c)"
      using 2 by blast
    show "collected entityWithIds found (reachable h ms (entity, metadata))"
    proof (cases "find (\<lambda>entityWithId. ewi_entity entityWithId = entity) below = None")
      case True
      then obtain v where "found = below @ [\<lparr>ewi_id = v, ewi_entityTarget = md_target metadata,
                                               ewi_entity = entity\<rparr>]"
        using run below by (auto split: sum.splits)
      then show ?thesis
        using collected_push [OF c True] by (simp add: reachable_unfold)
    next
      case False
      then have "found = below"
        using run below by auto
      then show ?thesis
        using collected_present [OF c False] by (simp add: reachable_unfold)
    qed
  qed
next
  case (3 n h ms entity entityWithIds)
  show ?case by (simp add: collected_refl)
next
  case (4 n h ms entity relation rest entityWithIds)
  show ?case
  proof (intro allI impI)
    fix found
    assume run: "extractRelations n h ms entity (relation # rest) entityWithIds = Some (Inr found)"
    then obtain v where v: "getProp h entity (relationSlot relation) = Inr v"
      by (auto split: sum.splits)
    show "collected entityWithIds found
            (\<Union>c \<in> children h ms entity (relation # rest). reachable h ms c)"
    proof (cases "truthy v")
      case False
      then have "extractRelations n h ms entity rest entityWithIds = Some (Inr found)"
        using run v by simp
      then have "collected entityWithIds found
                   (\<Union>c \<in> children h ms entity rest. reachable h ms c)"
        using "4.IH"(1) [OF v False] by blast
      moreover have "relationChildren h ms entity relation = {}"
        using v False by (simp add: relationChildren_def)
      ultimately show ?thesis by simp
    next
      case True
      then have t: "\<not> \<not> truthy v" by simp
      let ?call = "case arrayElems h v of
                     None \<Rightarrow> extractObjectsById n h ms v
                               (ms (inverseEntityMetadata relation)) entityWithIds
                   | Some subEntities \<Rightarrow> extractSubEntities n h ms subEntities
                               (ms (inverseEntityMetadata relation)) entityWithIds"
      obtain below where call: "?call = Some (Inr below)"
        and rest: "extractRelations n h ms entity rest below = Some (Inr found)"
        using run v True by (auto split: option.splits sum.splits)
      have after: "collected below found (\<Union>c \<in> children h ms entity rest. reachable h ms c)"
        using "4.IH"(4) [OF v t call refl] rest by blast
      have first: "collected entityWithIds below
                     (\<Union>c \<in> relationChildren h ms entity relation. reachable h ms c)"
      proof (cases "arrayElems h v")
        case None
        then have "extractObjectsById n h ms v (ms (inverseEntityMetadata relation)) entityWithIds
                   = Some (Inr below)"
          using call by simp
        then have "collected entityWithIds below
                     (reachable h ms (v, ms (inverseEntityMetadata relation)))"
          using "4.IH"(2) [OF v t None] by blast
        moreover have "relationChildren h ms entity relation
                       = {(v, ms (inverseEntityMetadata relation))}"
          using v True None by (simp add: relationChildren_def)
        ultimately show ?thesis by simp
      next
        case (Some subEntities)
        then have "extractSubEntities n h ms subEntities (ms (inverseEntityMetadata relation))
                     entityWithIds = Some (Inr below)"
          using call by simp
        then have "collected entityWithIds below
                     (\<Union>s \<in> set subEntities.
                         reachable h ms (s, ms (inverseEntityMetadata relation)))"
          using "4.IH"(3) [OF v t Some] by blast
        moreover have "relationChildren h ms entity relation
                       = (\<lambda>s. (s, ms (inverseEntityMetadata relation))) ` set subEntities"
          using v True Some by (simp add: relationChildren_def)
        ultimately show ?thesis by simp
      qed
      have "(\<Union>c \<in> children h ms entity (relation # rest). reachable h ms c)
            = (\<Union>c \<in> relationChildren h ms entity relation. reachable h ms c)
              \<union> (\<Union>c \<in> children h ms entity rest. reachable h ms c)"
        by auto
      then show ?thesis
        using collected_trans [OF first after] by simp
    qed
  qed
next
  case (5 n h ms relMetadata entityWithIds)
  show ?case by (simp add: collected_refl)
next
  case (6 n h ms subEntity rest relMetadata entityWithIds)
  show ?case
  proof (intro allI impI)
    fix found
    assume run: "extractSubEntities n h ms (subEntity # rest) relMetadata entityWithIds
                 = Some (Inr found)"
    then obtain below where
      call: "extractObjectsById n h ms subEntity relMetadata entityWithIds = Some (Inr below)"
      and rest: "extractSubEntities n h ms rest relMetadata below = Some (Inr found)"
      by (auto split: option.splits sum.splits)
    have first: "collected entityWithIds below (reachable h ms (subEntity, relMetadata))"
      using "6.IH"(1) call by blast
    have after: "collected below found (\<Union>s \<in> set rest. reachable h ms (s, relMetadata))"
      using "6.IH"(2) [OF call refl] rest by blast
    show "collected entityWithIds found
            (\<Union>s \<in> set (subEntity # rest). reachable h ms (s, relMetadata))"
      using collected_trans [OF first after] by simp
  qed
qed

lemma example_post_with_categories_extract:
  "extractObjectsById (Suc (Suc 0)) exampleHeap exampleMetadatas (JSRef 10) postMetadata []
   = Some (Inr [\<lparr>ewi_id = JSNum 1, ewi_entityTarget = ''Category'', ewi_entity = JSRef 12\<rparr>,
                \<lparr>ewi_id = JSNum 1, ewi_entityTarget = ''Category'', ewi_entity = JSRef 13\<rparr>,
                \<lparr>ewi_id = JSNum 9, ewi_entityTarget = ''Post'', ewi_entity = JSRef 10\<rparr>])"
  by (simp add: exampleHeap_def exampleMetadatas_def postMetadata_def categoryMetadata_def
      categoriesRelation_def authorRelation_def parentRelation_def relationSlot_def objGet_def)

text \<open>
  C2, as claimed: no two entries of the collection share the same entity target and the
  same non-null id. The post whose \<open>categories\<close> array holds two distinct objects that both
  carry the id 1 is collected into three entries, two of them with the target \<open>Category\<close>
  and the id 1.
\<close>

theorem extractObjectsById_two_entries_for_one_row:
  "extractObjectsById (Suc (Suc 0)) exampleHeap exampleMetadatas (JSRef 10) postMetadata []
   = Some (Inr [\<lparr>ewi_id = JSNum 1, ewi_entityTarget = ''Category'', ewi_entity = JSRef 12\<rparr>,
                \<lparr>ewi_id = JSNum 1, ewi_entityTarget = ''Category'', ewi_entity = JSRef 13\<rparr>,
                \<lparr>ewi_id = JSNum 9, ewi_entityTarget = ''Post'', ewi_entity = JSRef 10\<rparr>])
   \<and> \<not> uniqueRowIdentities
         [\<lparr>ewi_id = JSNum 1, ewi_entityTarget = ''Category'', ewi_entity = JSRef 12\<rparr>,
          \<lparr>ewi_id = JSNum 1, ewi_entityTarget = ''Category'', ewi_entity = JSRef 13\<rparr>,
          \<lparr>ewi_id = JSNum 9, ewi_entityTarget = ''Post'', ewi_entity = JSRef 10\<rparr>]"
proof -
  have "\<not> uniqueRowIdentities
         [\<lparr>ewi_id = JSNum 1, ewi_entityTarget = ''Category'', ewi_entity = JSRef 12\<rparr>,
          \<lparr>ewi_id = JSNum 1, ewi_entityTarget = ''Category'', ewi_entity = JSRef 13\<rparr>,
          \<lparr>ewi_id = JSNum 9, ewi_entityTarget = ''Post'', ewi_entity = JSRef 10\<rparr>]"
    by (simp add: uniqueRowIdentities_def)
  with example_post_with_categories_extract show ?thesis by (rule conjI)
qed

subsection \<open>When graph collection returns\<close>

text \<open>
  A call for a list of elements, or for the relations of an entity, gives no array as long
  as the call for one of the elements, or for one of the related values, gives none
  whatever array it starts from.
\<close>

lemma extractSubEntities_blocked:
  assumes "s \<in> set subEntities"
    and "\<And>acc found. extractObjectsById n h ms s relMetadata acc \<noteq> Some (Inr found)"
  shows "extractSubEntities n h ms subEntities relMetadata entityWithIds \<noteq> Some (Inr found)"
  using assms(1)
proof (induction subEntities arbitrary: entityWithIds)
  case Nil
  then show ?case by simp
next
  case (Cons subEntity rest)
  show ?case
  proof (cases "s = subEntity")
    case True
    then show ?thesis
      using assms(2) by (auto split: option.splits sum.splits)
  next
    case False
    then have "s \<in> set rest"
      using Cons.prems by simp
    then show ?thesis
      using Cons.IH by (auto split: option.splits sum.splits)
  qed
qed

lemma extractRelations_blocked:
  assumes "c \<in> children h ms entity rels"
    and "\<And>acc found. extractObjectsById n h ms (fst c) (snd c) acc \<noteq> Some (Inr found)"
  shows "extractRelations n h ms entity rels entityWithIds \<noteq> Some (Inr found)"
  using assms(1)
proof (induction rels arbitrary: entityWithIds)
  case Nil
  then show ?case by simp
next
  case (Cons relation rest)
  show ?case
  proof (cases "c \<in> relationChildren h ms entity relation")
    case True
    then obtain v where v: "getProp h entity (relationSlot relation) = Inr v" and t: "truthy v"
      by (auto simp: relationChildren_def split: sum.splits if_splits)
    show ?thesis
    proof (cases "arrayElems h v")
      case None
      then have "c = (v, ms (inverseEntityMetadata relation))"
        using True v t by (simp add: relationChildren_def)
      then have "extractObjectsById n h ms v (ms (inverseEntityMetadata relation)) entityWithIds
                 \<noteq> Some (Inr below)" for below
        using assms(2) [of entityWithIds below] by simp
      then show ?thesis
        using v t None by (auto split: option.splits sum.splits)
    next
      case (Some subEntities)
      then have "fst c \<in> set subEntities" and "snd c = ms (inverseEntityMetadata relation)"
        using True v t by (auto simp: relationChildren_def)
      then have "extractSubEntities n h ms subEntities (ms (inverseEntityMetadata relation))
                   entityWithIds \<noteq> Some (Inr below)" for below
        using extractSubEntities_blocked
            [where s = "fst c" and subEntities = subEntities and n = n and h = h and ms = ms
               and relMetadata = "ms (inverseEntityMetadata relation)" and found = below
               and entityWithIds = entityWithIds] assms(2)
        by simp
      then show ?thesis
        using v t Some by (auto split: option.splits sum.splits)
    qed
  next
    case False
    then have "c \<in> children h ms entity rest"
      using Cons.prems by simp
    then have "extractRelations n h ms entity rest acc \<noteq> Some (Inr found)" for acc
      using Cons.IH by blast
    then show ?thesis
      by (auto split: option.splits sum.splits if_splits)
  qed
qed

text \<open>
  On a graph that has a cycle within reach of the root, graph collection returns no
  array, whatever depth of nested calls is allowed: it does not return at all, unless a
  property read throws first.
\<close>

lemma extractObjectsById_cycle_in_reach:
  assumes "(walkStep h ms)\<^sup>*\<^sup>* x z" and "(walkStep h ms)\<^sup>+\<^sup>+ z z"
  shows "extractObjectsById fuel h ms (fst x) (snd x) entityWithIds \<noteq> Some (Inr found)"
  using assms(1)
proof (induction fuel arbitrary: x entityWithIds found)
  case 0
  show ?case by simp
next
  case (Suc n)
  have "\<exists>y. walkStep h ms x y \<and> (walkStep h ms)\<^sup>*\<^sup>* y z"
  proof (cases "x = z")
    case True
    then have "(walkStep h ms)\<^sup>+\<^sup>+ x z"
      using assms(2) by simp
    then show ?thesis
      by (rule tranclpD)
  next
    case False
    from Suc.prems show ?thesis
    proof (cases rule: converse_rtranclpE)
      case base
      then show ?thesis using False by simp
    next
      case (step y)
      then show ?thesis by blast
    qed
  qed
  then obtain y where step: "walkStep h ms x y" and reach: "(walkStep h ms)\<^sup>*\<^sup>* y z"
    by blast
  have child: "y \<in> children h ms (fst x) (relations (snd x))"
    using step by (simp add: walkStep_def)
  have "extractObjectsById n h ms (fst y) (snd y) acc \<noteq> Some (Inr below)" for acc below
    using Suc.IH [OF reach] .
  then have "extractRelations n h ms (fst x) (relations (snd x)) entityWithIds \<noteq> Some (Inr below)"
    for below
    using extractRelations_blocked [OF child] by blast
  then show ?case
    by (auto split: option.splits sum.splits)
qed

text \<open>
  On a graph whose walks from the root are within depth \<open>d\<close>, graph collection settles
  when \<open>d\<close> nested calls are allowed.
\<close>

lemma extractSubEntities_settles:
  assumes "\<And>s acc. s \<in> set subEntities \<Longrightarrow>
             \<exists>r. extractObjectsById n h ms s relMetadata acc = Some r"
  shows "\<exists>r. extractSubEntities n h ms subEntities relMetadata entityWithIds = Some r"
  using assms
proof (induction subEntities arbitrary: entityWithIds)
  case Nil
  show ?case by simp
next
  case (Cons subEntity rest)
  obtain r where r: "extractObjectsById n h ms subEntity relMetadata entityWithIds = Some r"
    using Cons.prems [of subEntity entityWithIds] by auto
  show ?case
  proof (cases r)
    case (Inl e)
    then show ?thesis using r by simp
  next
    case (Inr below)
    have "\<exists>r. extractSubEntities n h ms rest relMetadata below = Some r"
      using Cons.IH [of below] Cons.prems by simp
    then show ?thesis using r Inr by auto
  qed
qed

lemma extractRelations_settles:
  assumes "\<And>c acc. c \<in> children h ms entity rels \<Longrightarrow>
             \<exists>r. extractObjectsById n h ms (fst c) (snd c) acc = Some r"
  shows "\<exists>r. extractRelations n h ms entity rels entityWithIds = Some r"
  using assms
proof (induction rels arbitrary: entityWithIds)
  case Nil
  show ?case by simp
next
  case (Cons relation rest)
  have later: "\<exists>r. extractRelations n h ms entity rest acc = Some r" for acc
    using Cons.IH [of acc] Cons.prems by simp
  show ?case
  proof (cases "getProp h entity (relationSlot relation)")
    case (Inl e)
    then show ?thesis by simp
  next
    case (Inr v)
    show ?thesis
    proof (cases "truthy v")
      case False
      then show ?thesis using Inr later by simp
    next
      case True
      let ?call = "case arrayElems h v of
                     None \<Rightarrow> extractObjectsById n h ms v
                               (ms (inverseEntityMetadata relation)) entityWithIds
                   | Some subEntities \<Rightarrow> extractSubEntities n h ms subEntities
                               (ms (inverseEntityMetadata relation)) entityWithIds"
      have "\<exists>r. ?call = Some r"
      proof (cases "arrayElems h v")
        case None
        then have "(v, ms (inverseEntityMetadata relation)) \<in> children h ms entity (relation # rest)"
          using Inr True by (simp add: relationChildren_def)
        then show ?thesis
          using Cons.prems [of "(v, ms (inverseEntityMetadata relation))" entityWithIds] None
          by simp
      next
        case (Some subEntities)
        have "\<exists>r. extractObjectsById n h ms s (ms (inverseEntityMetadata relation)) acc = Some r"
          if s: "s \<in> set subEntities" for s acc
        proof -
          have "(s, ms (inverseEntityMetadata relation)) \<in> children h ms entity (relation # rest)"
            using Inr True Some s by (simp add: relationChildren_def)
          then show ?thesis
            using Cons.prems [of "(s, ms (inverseEntityMetadata relation))" acc] by simp
        qed
        then show ?thesis
          using extractSubEntities_settles
              [where subEntities = subEntities and n = n and h = h and ms = ms
                 and relMetadata = "ms (inverseEntityMetadata relation)"
                 and entityWithIds = entityWithIds] Some
          by simp
      qed
      then obtain r where r: "?call = Some r" by blast
      show ?thesis
      proof (cases r)
        case (Inl e)
        then show ?thesis using Inr True r by simp
      next
        case (Inr below)
        then show ?thesis
          using \<open>getProp h entity (relationSlot relation) = Inr v\<close> True r later [of below]
          by auto
      qed
    qed
  qed
qed

lemma extractObjectsById_settles:
  "withinDepth d h ms x \<Longrightarrow>
     \<exists>r. extractObjectsById d h ms (fst x) (snd x) entityWithIds = Some r"
proof (induction d arbitrary: x entityWithIds)
  case 0
  then show ?case by simp
next
  case (Suc d)
  have "\<exists>r. extractObjectsById d h ms (fst c) (snd c) acc = Some r"
    if "c \<in> children h ms (fst x) (relations (snd x))" for c acc
    using Suc.IH [of c acc] Suc.prems that by simp
  then obtain r where
    r: "extractRelations d h ms (fst x) (relations (snd x)) entityWithIds = Some r"
    using extractRelations_settles
        [where h = h and ms = ms and entity = "fst x" and rels = "relations (snd x)" and n = d
           and entityWithIds = entityWithIds]
    by blast
  show ?case
  proof (cases r)
    case (Inl e)
    then show ?thesis using r by simp
  next
    case (Inr below)
    then show ?thesis
      using r by (auto split: sum.splits)
  qed
qed

lemma example_post_with_categories_depth:
  "withinDepth (Suc (Suc 0)) exampleHeap exampleMetadatas (JSRef 10, postMetadata)"
  by (simp add: relationChildren_def exampleHeap_def exampleMetadatas_def postMetadata_def
      categoryMetadata_def categoriesRelation_def authorRelation_def parentRelation_def
      relationSlot_def objGet_def)

text \<open>
  C2, amended. When graph collection returns, started on an empty array, the entries it
  returns hold pairwise distinct objects, and the objects they hold are exactly the
  objects reachable from the root through the declared relations: every reachable object
  has exactly one entry, whatever its id, and two distinct objects have two entries even
  when they carry the same target and id. It does settle, with such an array or with an
  error, when the walks from the root are within the depth allowed.
\<close>

theorem extractObjectsById_one_entry_per_reachable_object:
  "(extractObjectsById fuel h ms entity metadata [] = Some (Inr found) \<longrightarrow>
      distinct (map ewi_entity found)
      \<and> ewi_entity ` set found = reachable h ms (entity, metadata))
   \<and> (withinDepth fuel h ms (entity, metadata) \<longrightarrow>
        (\<exists>r. extractObjectsById fuel h ms entity metadata [] = Some r))"
proof (intro conjI impI)
  assume run: "extractObjectsById fuel h ms entity metadata [] = Some (Inr found)"
  have c: "collected [] found (reachable h ms (entity, metadata))"
    using extract_collected(1) [of fuel h ms entity metadata "[]"] run by blast
  show "distinct (map ewi_entity found)"
    using c by (simp add: collected_def)
  show "ewi_entity ` set found = reachable h ms (entity, metadata)"
    using c by (simp add: collected_def)
next
  assume "withinDepth fuel h ms (entity, metadata)"
  then show "\<exists>r. extractObjectsById fuel h ms entity metadata [] = Some r"
    using extractObjectsById_settles [of fuel h ms "(entity, metadata)" "[]"] by simp
qed

theorem extractObjectsById_one_entry_per_reachable_object_witness:
  "withinDepth (Suc (Suc 0)) exampleHeap exampleMetadatas (JSRef 10, postMetadata)
   \<and> (\<exists>found.
         extractObjectsById (Suc (Suc 0)) exampleHeap exampleMetadatas (JSRef 10) postMetadata []
           = Some (Inr found)
         \<and> map ewi_entity found = [JSRef 12, JSRef 13, JSRef 10])
   \<and> distinct [JSRef 12, JSRef 13, JSRef 10]
   \<and> {JSRef 12, JSRef 13, JSRef 10} = reachable exampleHeap exampleMetadatas (JSRef 10, postMetadata)"
  using extractObjectsById_one_entry_per_reachable_object
      [where fuel = "Suc (Suc 0)" and h = exampleHeap and ms = exampleMetadatas
         and entity = "JSRef 10" and metadata = postMetadata
         and found = "[\<lparr>ewi_id = JSNum 1, ewi_entityTarget = ''Category'', ewi_entity = JSRef 12\<rparr>,
                       \<lparr>ewi_id = JSNum 1, ewi_entityTarget = ''Category'', ewi_entity = JSRef 13\<rparr>,
                       \<lparr>ewi_id = JSNum 9, ewi_entityTarget = ''Post'', ewi_entity = JSRef 10\<rparr>]"]
    example_post_with_categories_extract example_post_with_categories_depth
  by (simp del: extractObjectsById.simps withinDepth.simps)

end
